theory Spec2Isabelle
  imports
    Complex_Main
    "HOL-Library.Signed_Division"
    "HOL-Library.Char_ord"
    "HOL-Library.List_Lexorder"
begin

section \<open>JavaScript values used by the image viewer\<close>

text \<open>
  A thrown value is either an \<open>Error\<close> object (of which only the message is read) or
  something that is not an \<open>Error\<close>; the export loop distinguishes the two with
  \<^verbatim>\<open>error instanceof Error ? error.message : 'Unknown error'\<close>.
\<close>

datatype JsError = Error string | NonError

text \<open>\<^verbatim>\<open>x || undefined\<close> and \<^verbatim>\<open>x || null\<close> on an optional string: the empty string is falsy.\<close>

definition orUndefined :: "string option \<Rightarrow> string option" where
  "orUndefined x = (case x of None \<Rightarrow> None | Some t \<Rightarrow> if t = [] then None else Some t)"

text \<open>Truthiness of an optional string (\<^verbatim>\<open>if (img.fullResUrl)\<close>).\<close>

definition truthyStr :: "string option \<Rightarrow> bool" where
  "truthyStr x = (case x of None \<Rightarrow> False | Some t \<Rightarrow> t \<noteq> [])"

text \<open>Truthiness of \<^verbatim>\<open>number | null\<close> (\<^verbatim>\<open>currentSessionId && dbInitialized\<close>).\<close>

definition truthyNum :: "int option \<Rightarrow> bool" where
  "truthyNum x = (case x of None \<Rightarrow> False | Some n \<Rightarrow> n \<noteq> 0)"

datatype GridMode = Grid5x5 | Grid6x4

section \<open>The session store (\<^verbatim>\<open>src/utils/database.ts\<close>)\<close>

text \<open>Rows of the two SQL tables, one field per column, in column order.\<close>

record SessionRow =
  s_id :: int
  folder_name :: string
  created_at :: int
  last_accessed :: int
  grid_mode :: GridMode
  current_page :: int
  focused_index :: int

record ImageRow =
  i_id :: int
  session_id :: int
  file_name :: string
  file_path :: string
  size_col :: int
  last_modified :: int
  selected_col :: int
  thumbnail_data :: "string option"

text \<open>
  The sql.js database: both tables in insertion order and the two \<open>AUTOINCREMENT\<close>
  counters (the largest row id ever handed out).
\<close>

record Database =
  session_rows :: "SessionRow list"
  image_rows :: "ImageRow list"
  session_seq :: int
  image_seq :: int

definition emptyDatabase :: Database where
  "emptyDatabase = \<lparr>session_rows = [], image_rows = [], session_seq = 0, image_seq = 0\<rparr>"

text \<open>
  The module state: \<^verbatim>\<open>let db: Database | null\<close>, the snapshot stored in IndexedDB under
  the key \<^verbatim>\<open>'sqliteDb'\<close>, and whether IndexedDB reads and writes succeed (a failure is
  caught and logged by the code, never rethrown).
\<close>

record Store =
  db :: "Database option"
  idb :: "Database option"
  idbAvailable :: bool

definition notInitialized :: JsError where
  "notInitialized = Error ''Database not initialized. Call initDatabase() first.''"

definition getDatabase :: "Store \<Rightarrow> JsError + Database" where
  "getDatabase st = (case db st of None \<Rightarrow> Inl notInitialized | Some d \<Rightarrow> Inr d)"

text \<open>
  \<^verbatim>\<open>saveToIndexedDB\<close>: returns at once when \<^verbatim>\<open>db\<close> is null; otherwise the export taken at
  the call is written, and a failed write is only logged.
\<close>

definition saveToIndexedDB :: "Store \<Rightarrow> Store" where
  "saveToIndexedDB st =
     (case db st of
        None \<Rightarrow> st
      | Some d \<Rightarrow> if idbAvailable st then st\<lparr>idb := Some d\<rparr> else st)"

text \<open>
  \<^verbatim>\<open>initDatabase\<close>. The argument is the failure of loading sql.js, if any (the promise then
  rejects before \<^verbatim>\<open>db\<close> is assigned). The tables always exist in the model, so the
  \<^verbatim>\<open>CREATE TABLE IF NOT EXISTS\<close> statements and the column migration change nothing.
\<close>

definition initDatabase :: "JsError option \<Rightarrow> Store \<Rightarrow> (JsError + Database) \<times> Store" where
  "initDatabase sqlFailure st =
     (case db st of
        Some d \<Rightarrow> (Inr d, st)
      | None \<Rightarrow>
          (case sqlFailure of
             Some e \<Rightarrow> (Inl e, st)
           | None \<Rightarrow>
               (let d = (if idbAvailable st
                         then (case idb st of Some saved \<Rightarrow> saved | None \<Rightarrow> emptyDatabase)
                         else emptyDatabase)
                in (Inr d, saveToIndexedDB (st\<lparr>db := Some d\<rparr>)))))"

definition closeDatabase :: "Store \<Rightarrow> Store" where
  "closeDatabase st = (case db st of None \<Rightarrow> st | Some d \<Rightarrow> st\<lparr>db := None\<rparr>)"

text \<open>The row id an \<open>AUTOINCREMENT\<close> insert gets: one more than the largest ever used.\<close>

definition nextRowId :: "int \<Rightarrow> int list \<Rightarrow> int" where
  "nextRowId seq ids = fold max ids seq + 1"

subsection \<open>Session operations\<close>

definition createSession ::
  "int \<Rightarrow> string \<Rightarrow> GridMode \<Rightarrow> Store \<Rightarrow> (JsError + int) \<times> Store" where
  "createSession now folderName gridMode st =
     (case getDatabase st of
        Inl e \<Rightarrow> (Inl e, st)
      | Inr d \<Rightarrow>
          (let sessionId = nextRowId (session_seq d) (map s_id (session_rows d));
               row = \<lparr>s_id = sessionId, folder_name = folderName, created_at = now,
                      last_accessed = now, grid_mode = gridMode, current_page = 0,
                      focused_index = 0\<rparr>;
               d' = d\<lparr>session_rows := session_rows d @ [row], session_seq := sessionId\<rparr>
           in (Inr sessionId, saveToIndexedDB (st\<lparr>db := Some d'\<rparr>))))"

definition updateSessionRow ::
  "int \<Rightarrow> int \<Rightarrow> GridMode \<Rightarrow> int \<Rightarrow> int option \<Rightarrow> SessionRow \<Rightarrow> SessionRow" where
  "updateSessionRow now sessionId gridMode currentPage focusedIndex r =
     (if s_id r = sessionId
      then (case focusedIndex of
              Some fi \<Rightarrow> r\<lparr>grid_mode := gridMode, current_page := currentPage,
                            focused_index := fi, last_accessed := now\<rparr>
            | None \<Rightarrow> r\<lparr>grid_mode := gridMode, current_page := currentPage,
                         last_accessed := now\<rparr>)
      else r)"

definition updateSession ::
  "int \<Rightarrow> int \<Rightarrow> GridMode \<Rightarrow> int \<Rightarrow> int option \<Rightarrow> Store \<Rightarrow> (JsError + unit) \<times> Store" where
  "updateSession now sessionId gridMode currentPage focusedIndex st =
     (case getDatabase st of
        Inl e \<Rightarrow> (Inl e, st)
      | Inr d \<Rightarrow>
          (let d' = d\<lparr>session_rows :=
                       map (updateSessionRow now sessionId gridMode currentPage focusedIndex)
                         (session_rows d)\<rparr>
           in (Inr (), saveToIndexedDB (st\<lparr>db := Some d'\<rparr>))))"

text \<open>The first row of a result set, or null when there is none.\<close>

definition firstRow :: "'a list \<Rightarrow> 'a option" where
  "firstRow rows = (case rows of [] \<Rightarrow> None | r # _ \<Rightarrow> Some r)"

definition getSession :: "int \<Rightarrow> Store \<Rightarrow> (JsError + SessionRow option) \<times> Store" where
  "getSession sessionId st =
     (case getDatabase st of
        Inl e \<Rightarrow> (Inl e, st)
      | Inr d \<Rightarrow> (Inr (firstRow (filter (\<lambda>r. s_id r = sessionId) (session_rows d))), st))"

text \<open>\<^verbatim>\<open>ORDER BY last_accessed DESC\<close> (rows with equal keys stay in table order).\<close>

definition byLastAccessedDesc :: "SessionRow list \<Rightarrow> SessionRow list" where
  "byLastAccessedDesc rows = sort_key (\<lambda>r. - last_accessed r) rows"

definition getAllSessions :: "Store \<Rightarrow> (JsError + SessionRow list) \<times> Store" where
  "getAllSessions st =
     (case getDatabase st of
        Inl e \<Rightarrow> (Inl e, st)
      | Inr d \<Rightarrow> (Inr (byLastAccessedDesc (session_rows d)), st))"

definition findSessionByFolderName ::
  "string \<Rightarrow> Store \<Rightarrow> (JsError + SessionRow option) \<times> Store" where
  "findSessionByFolderName folderName st =
     (case getDatabase st of
        Inl e \<Rightarrow> (Inl e, st)
      | Inr d \<Rightarrow>
          (Inr (firstRow (byLastAccessedDesc
                  (filter (\<lambda>r. folder_name r = folderName) (session_rows d)))), st))"

text \<open>
  \<^verbatim>\<open>DELETE FROM sessions WHERE id = ?\<close>. The code never switches SQLite's foreign keys on, so
  nothing cascades to the image rows.
\<close>

definition deleteSession :: "int \<Rightarrow> Store \<Rightarrow> (JsError + unit) \<times> Store" where
  "deleteSession sessionId st =
     (case getDatabase st of
        Inl e \<Rightarrow> (Inl e, st)
      | Inr d \<Rightarrow>
          (Inr (), st\<lparr>db := Some (d\<lparr>session_rows :=
                         filter (\<lambda>r. s_id r \<noteq> sessionId) (session_rows d)\<rparr>)\<rparr>))"

subsection \<open>Image operations\<close>

text \<open>The argument object of \<^verbatim>\<open>saveImage\<close>.\<close>

record NewImage =
  n_fileName :: string
  n_filePath :: string
  n_size :: int
  n_lastModified :: int
  n_selected :: bool
  n_thumbnailData :: "string option"

definition saveImage :: "int \<Rightarrow> NewImage \<Rightarrow> Store \<Rightarrow> (JsError + unit) \<times> Store" where
  "saveImage sessionId newImage st =
     (case getDatabase st of
        Inl e \<Rightarrow> (Inl e, st)
      | Inr d \<Rightarrow>
          (let rowId = nextRowId (image_seq d) (map i_id (image_rows d));
               row = \<lparr>i_id = rowId, session_id = sessionId, file_name = n_fileName newImage,
                      file_path = n_filePath newImage, size_col = n_size newImage,
                      last_modified = n_lastModified newImage,
                      selected_col = (if n_selected newImage then 1 else 0),
                      thumbnail_data = orUndefined (n_thumbnailData newImage)\<rparr>
           in (Inr (), st\<lparr>db := Some (d\<lparr>image_rows := image_rows d @ [row],
                                         image_seq := rowId\<rparr>)\<rparr>)))"

definition updateImageThumbnail ::
  "int \<Rightarrow> string \<Rightarrow> string \<Rightarrow> Store \<Rightarrow> (JsError + unit) \<times> Store" where
  "updateImageThumbnail sessionId filePath thumbnailData st =
     (case getDatabase st of
        Inl e \<Rightarrow> (Inl e, st)
      | Inr d \<Rightarrow>
          (Inr (), st\<lparr>db := Some (d\<lparr>image_rows :=
             map (\<lambda>r. if session_id r = sessionId \<and> file_path r = filePath
                      then r\<lparr>thumbnail_data := Some thumbnailData\<rparr> else r)
               (image_rows d)\<rparr>)\<rparr>))"

definition updateImageSelection ::
  "int \<Rightarrow> string \<Rightarrow> bool \<Rightarrow> Store \<Rightarrow> (JsError + unit) \<times> Store" where
  "updateImageSelection sessionId filePath sel st =
     (case getDatabase st of
        Inl e \<Rightarrow> (Inl e, st)
      | Inr d \<Rightarrow>
          (let d' = d\<lparr>image_rows :=
                       map (\<lambda>r. if session_id r = sessionId \<and> file_path r = filePath
                                then r\<lparr>selected_col := (if sel then 1 else 0)\<rparr> else r)
                         (image_rows d)\<rparr>
           in (Inr (), saveToIndexedDB (st\<lparr>db := Some d'\<rparr>))))"

definition saveImagesToDatabase :: "Store \<Rightarrow> (JsError + unit) \<times> Store" where
  "saveImagesToDatabase st = (Inr (), saveToIndexedDB st)"

text \<open>The objects \<^verbatim>\<open>getSessionImages\<close> and \<^verbatim>\<open>getSelectedImages\<close> build from a row.\<close>

record SavedImage =
  v_id :: int
  v_sessionId :: int
  v_fileName :: string
  v_filePath :: string
  v_size :: int
  v_lastModified :: int
  v_selected :: bool
  v_thumbnailData :: "string option"

definition savedOfRow :: "ImageRow \<Rightarrow> SavedImage" where
  "savedOfRow r =
     \<lparr>v_id = i_id r, v_sessionId = session_id r, v_fileName = file_name r,
      v_filePath = file_path r, v_size = size_col r, v_lastModified = last_modified r,
      v_selected = (selected_col r = 1), v_thumbnailData = thumbnail_data r\<rparr>"

text \<open>\<^verbatim>\<open>SELECT * FROM images WHERE session_id = ? ORDER BY file_name\<close>.\<close>

definition selectSessionImages :: "int \<Rightarrow> Database \<Rightarrow> ImageRow list" where
  "selectSessionImages sessionId d =
     sort_key file_name (filter (\<lambda>r. session_id r = sessionId) (image_rows d))"

definition getSessionImages :: "int \<Rightarrow> Store \<Rightarrow> (JsError + SavedImage list) \<times> Store" where
  "getSessionImages sessionId st =
     (case getDatabase st of
        Inl e \<Rightarrow> (Inl e, st)
      | Inr d \<Rightarrow> (Inr (map savedOfRow (selectSessionImages sessionId d)), st))"

definition getSelectedImages :: "int \<Rightarrow> Store \<Rightarrow> (JsError + SavedImage list) \<times> Store" where
  "getSelectedImages sessionId st =
     (case getDatabase st of
        Inl e \<Rightarrow> (Inl e, st)
      | Inr d \<Rightarrow>
          (Inr (map (\<lambda>r. (savedOfRow r)\<lparr>v_selected := True\<rparr>)
                  (filter (\<lambda>r. session_id r = sessionId \<and> selected_col r = 1) (image_rows d))),
           st))"

definition exportDatabase :: "Store \<Rightarrow> (JsError + Database) \<times> Store" where
  "exportDatabase st =
     (case getDatabase st of Inl e \<Rightarrow> (Inl e, st) | Inr d \<Rightarrow> (Inr d, st))"

section \<open>File access (\<^verbatim>\<open>src/utils/fileSystem.ts\<close>)\<close>

text \<open>
  A \<open>File\<close> is identified by a string. A file handle is modelled by what \<^verbatim>\<open>getFile()\<close> does
  on it: it throws, or it yields the file.
\<close>

type_synonym File = string

type_synonym FileSystemFileHandle = "JsError + File"

record ImageItem =
  img_id :: string
  fileHandle :: FileSystemFileHandle
  fileName :: string
  path :: string
  img_size :: int
  thumbnailUrl :: "string option"
  fullResUrl :: "string option"
  lastModified :: int
  selected :: bool

text \<open>
  The destination directory handle is modelled by what creating and writing a file of a
  given name does (\<^verbatim>\<open>getFileHandle\<close>, \<^verbatim>\<open>createWritable\<close>, \<^verbatim>\<open>write\<close>, \<^verbatim>\<open>close\<close>): the thrown
  value, or nothing. \<^verbatim>\<open>showDirectoryPicker\<close> throws or yields such a handle.
\<close>

type_synonym DirHandle = "string \<Rightarrow> File \<Rightarrow> JsError option"

record ExportResult =
  success :: nat
  failed :: nat
  errors :: "string list"

text \<open>
  The loop state: the three accumulators and the calls made to \<^verbatim>\<open>onProgress\<close>. The callback
  is optional (the flag says whether one was given) and is taken to return normally, as the
  state setter that the component passes does.
\<close>

record ExportAcc =
  acc_success :: nat
  acc_failed :: nat
  acc_errors :: "string list"
  acc_progress :: "(nat \<times> nat) list"

definition errorMessage :: "JsError \<Rightarrow> string" where
  "errorMessage e = (case e of Error m \<Rightarrow> m | NonError \<Rightarrow> ''Unknown error'')"

definition copyErrorMsg :: "ImageItem \<Rightarrow> JsError \<Rightarrow> string" where
  "copyErrorMsg img e = ''Failed to copy '' @ fileName img @ '': '' @ errorMessage e"

text \<open>The body of the \<^verbatim>\<open>try\<close> block up to \<^verbatim>\<open>success++\<close>: the thrown value, if any.\<close>

definition copyImage :: "DirHandle \<Rightarrow> ImageItem \<Rightarrow> JsError option" where
  "copyImage dest img =
     (case fileHandle img of
        Inl e \<Rightarrow> Some e
      | Inr file \<Rightarrow> dest (fileName img) file)"

fun exportLoop ::
  "DirHandle \<Rightarrow> bool \<Rightarrow> nat \<Rightarrow> nat \<Rightarrow> ImageItem list \<Rightarrow> ExportAcc \<Rightarrow> ExportAcc" where
  "exportLoop dest onProgress len i [] acc = acc"
| "exportLoop dest onProgress len i (img # rest) acc =
     exportLoop dest onProgress len (i + 1) rest
       (case copyImage dest img of
          None \<Rightarrow>
            acc\<lparr>acc_success := acc_success acc + 1,
                acc_progress := (if onProgress then acc_progress acc @ [(i + 1, len)]
                                 else acc_progress acc)\<rparr>
        | Some e \<Rightarrow>
            acc\<lparr>acc_failed := acc_failed acc + 1,
                acc_errors := acc_errors acc @ [copyErrorMsg img e]\<rparr>)"

text \<open>
  What one call of \<^verbatim>\<open>exportSelectedImages\<close> does: the value the promise settles with, how
  often a destination folder was requested, and the progress calls.
\<close>

record ExportRun =
  outcome :: "JsError + ExportResult"
  pickerRequests :: nat
  progressCalls :: "(nat \<times> nat) list"

definition exportSelectedImages ::
  "ImageItem list \<Rightarrow> bool \<Rightarrow> (JsError + DirHandle) \<Rightarrow> ExportRun" where
  "exportSelectedImages imgs onProgress showDirectoryPicker =
     (let selectedImages = filter selected imgs
      in if length selectedImages = 0
         then \<lparr>outcome = Inl (Error ''No images selected''), pickerRequests = 0,
               progressCalls = []\<rparr>
         else (case showDirectoryPicker of
                 Inl e \<Rightarrow> \<lparr>outcome = Inl e, pickerRequests = 1, progressCalls = []\<rparr>
               | Inr destinationHandle \<Rightarrow>
                   (let acc = exportLoop destinationHandle onProgress (length selectedImages) 0
                                selectedImages
                                \<lparr>acc_success = 0, acc_failed = 0, acc_errors = [],
                                 acc_progress = []\<rparr>
                    in \<lparr>outcome = Inr \<lparr>success = acc_success acc, failed = acc_failed acc,
                                         errors = acc_errors acc\<rparr>,
                        pickerRequests = 1, progressCalls = acc_progress acc\<rparr>)))"

text \<open>\<^verbatim>\<open>URL.createObjectURL\<close>: a blob URL for the file.\<close>

definition createObjectURL :: "File \<Rightarrow> string" where
  "createObjectURL file = ''blob:'' @ file"

section \<open>The application component (\<^verbatim>\<open>App\<close>)\<close>

text \<open>
  The model follows the version of the component that caches full-resolution URLs and
  persists the focused index. Its React state is a record; a handler is a function from
  the state of the render it was created in to the state after its updates, and the store
  is the module state of the database, carried along in the record.
\<close>

record AppState =
  images :: "ImageItem list"
  currentPage :: int
  gridMode :: GridMode
  folderHandle :: "string option"
  isLoading :: bool
  isSupported :: bool
  currentSessionId :: "int option"
  dbInitialized :: bool
  lightboxImageId :: "string option"
  focusedIndex :: int
  showResumeNotification :: bool
  store :: Store

text \<open>\<^verbatim>\<open>Math.ceil(n / p)\<close> on integers, for a positive \<open>p\<close>.\<close>

definition ceilDiv :: "int \<Rightarrow> int \<Rightarrow> int" where
  "ceilDiv n p = - ((- n) div p)"

definition imageCount :: "AppState \<Rightarrow> int" where
  "imageCount s = int (length (images s))"

definition pageSize :: "GridMode \<Rightarrow> int" where
  "pageSize m = (if m = Grid5x5 then 25 else 24)"

definition imagesPerPage :: "AppState \<Rightarrow> int" where
  "imagesPerPage s = pageSize (gridMode s)"

definition totalPages :: "AppState \<Rightarrow> int" where
  "totalPages s = ceilDiv (imageCount s) (imagesPerPage s)"

definition startIdx :: "AppState \<Rightarrow> int" where
  "startIdx s = currentPage s * imagesPerPage s"

definition endIdx :: "AppState \<Rightarrow> int" where
  "endIdx s = startIdx s + imagesPerPage s"

text \<open>\<^verbatim>\<open>images[i]\<close>: undefined outside the array.\<close>

definition imageAt :: "ImageItem list \<Rightarrow> int \<Rightarrow> ImageItem option" where
  "imageAt imgs i = (if 0 \<le> i \<and> i < int (length imgs) then Some (imgs ! nat i) else None)"

text \<open>\<^verbatim>\<open>Array.prototype.findIndex\<close>: the first index that satisfies the test, or \<open>-1\<close>.\<close>

fun findIndexFrom :: "('a \<Rightarrow> bool) \<Rightarrow> 'a list \<Rightarrow> int \<Rightarrow> int" where
  "findIndexFrom P [] i = - 1"
| "findIndexFrom P (x # xs) i = (if P x then i else findIndexFrom P xs (i + 1))"

definition findIndex :: "('a \<Rightarrow> bool) \<Rightarrow> 'a list \<Rightarrow> int" where
  "findIndex P xs = findIndexFrom P xs 0"

text \<open>\<^verbatim>\<open>currentSessionId && dbInitialized\<close>.\<close>

definition dbReady :: "AppState \<Rightarrow> bool" where
  "dbReady s = (truthyNum (currentSessionId s) \<and> dbInitialized s)"

text \<open>
  \<^verbatim>\<open>try { updateSession(currentSessionId, ...) } catch { console.error }\<close> under the guard
  \<^verbatim>\<open>currentSessionId && dbInitialized\<close>: a thrown error leaves the store as it was.
\<close>

definition syncSession :: "int \<Rightarrow> GridMode \<Rightarrow> int \<Rightarrow> int option \<Rightarrow> AppState \<Rightarrow> Store" where
  "syncSession now mode page fi s =
     (case currentSessionId s of
        None \<Rightarrow> store s
      | Some sid \<Rightarrow>
          if dbReady s then snd (updateSession now sid mode page fi (store s)) else store s)"

subsection \<open>Selection\<close>

definition toggleItem :: "string \<Rightarrow> ImageItem \<Rightarrow> ImageItem" where
  "toggleItem i img = (if img_id img = i then img\<lparr>selected := \<not> selected img\<rparr> else img)"

text \<open>The store updates made from inside the \<^verbatim>\<open>map\<close> callback, in list order.\<close>

fun syncSelection :: "int \<Rightarrow> string \<Rightarrow> ImageItem list \<Rightarrow> Store \<Rightarrow> Store" where
  "syncSelection sid i [] st = st"
| "syncSelection sid i (img # rest) st =
     syncSelection sid i rest
       (if img_id img = i
        then snd (updateImageSelection sid (path img) (\<not> selected img) st)
        else st)"

definition handleSelectImage :: "string \<Rightarrow> AppState \<Rightarrow> AppState" where
  "handleSelectImage i s =
     s\<lparr>images := map (toggleItem i) (images s),
       store := (case currentSessionId s of
                   None \<Rightarrow> store s
                 | Some sid \<Rightarrow>
                     if dbReady s then syncSelection sid i (images s) (store s) else store s)\<rparr>"

subsection \<open>Grid mode and page buttons\<close>

definition toggleMode :: "GridMode \<Rightarrow> GridMode" where
  "toggleMode prev = (if prev = Grid5x5 then Grid6x4 else Grid5x5)"

definition handleToggleGridMode :: "int \<Rightarrow> AppState \<Rightarrow> AppState" where
  "handleToggleGridMode now s =
     (let newMode = toggleMode (gridMode s)
      in s\<lparr>gridMode := newMode, currentPage := 0,
           store := syncSession now newMode 0 None s\<rparr>)"

definition handlePreviousPage :: "int \<Rightarrow> AppState \<Rightarrow> AppState" where
  "handlePreviousPage now s =
     (let newPage = max 0 (currentPage s - 1)
      in s\<lparr>currentPage := newPage, store := syncSession now (gridMode s) newPage None s\<rparr>)"

definition handleNextPage :: "int \<Rightarrow> AppState \<Rightarrow> AppState" where
  "handleNextPage now s =
     (let newPage = min (totalPages s - 1) (currentPage s + 1)
      in s\<lparr>currentPage := newPage, store := syncSession now (gridMode s) newPage None s\<rparr>)"

subsection \<open>Full-resolution images and the lightbox\<close>

text \<open>
  \<^verbatim>\<open>loadFullResImage\<close>. The first argument is the \<^verbatim>\<open>images\<close> array of the render the calling
  handler was created in (the closure looks the image up there); the update itself is a
  functional \<^verbatim>\<open>setImages\<close> on the current array. A failing \<^verbatim>\<open>getFile\<close> is caught and logged.
\<close>

definition loadFullResImage :: "ImageItem list \<Rightarrow> string \<Rightarrow> AppState \<Rightarrow> AppState" where
  "loadFullResImage closure imageId s =
     (case List.find (\<lambda>img. img_id img = imageId) closure of
        None \<Rightarrow> s
      | Some img \<Rightarrow>
          if truthyStr (fullResUrl img) then s
          else (case fileHandle img of
                  Inl e \<Rightarrow> s
                | Inr file \<Rightarrow>
                    s\<lparr>images :=
                        map (\<lambda>item. if img_id item = imageId
                                     then item\<lparr>fullResUrl := Some (createObjectURL file)\<rparr>
                                     else item)
                          (images s)\<rparr>))"

text \<open>
  \<^verbatim>\<open>loadFullResImage(images[k].id)\<close>; reading \<^verbatim>\<open>.id\<close> of an element outside the array throws,
  which ends the handler.
\<close>

definition loadAt :: "ImageItem list \<Rightarrow> int \<Rightarrow> AppState \<Rightarrow> AppState" where
  "loadAt closure k s =
     (case imageAt closure k of
        None \<Rightarrow> s
      | Some img \<Rightarrow> loadFullResImage closure (img_id img) s)"

text \<open>The two preloads around index \<open>k\<close>.\<close>

definition preloadAdjacent :: "ImageItem list \<Rightarrow> int \<Rightarrow> AppState \<Rightarrow> AppState" where
  "preloadAdjacent closure k s =
     (let s1 = (if k > 0 then loadAt closure (k - 1) s else s)
      in if k < int (length closure) - 1 then loadAt closure (k + 1) s1 else s1)"

definition handleLongPress :: "string \<Rightarrow> AppState \<Rightarrow> AppState" where
  "handleLongPress i s =
     (let closure = images s;
          s1 = loadFullResImage closure i (s\<lparr>lightboxImageId := Some i\<rparr>);
          currentIndex = findIndex (\<lambda>img. img_id img = i) closure
      in preloadAdjacent closure currentIndex s1)"

definition handleCloseLightbox :: "AppState \<Rightarrow> AppState" where
  "handleCloseLightbox s = s\<lparr>lightboxImageId := None\<rparr>"

datatype Direction = Prev | Next

definition handleNavigateLightbox :: "int \<Rightarrow> Direction \<Rightarrow> AppState \<Rightarrow> AppState" where
  "handleNavigateLightbox now direction s =
     (case lightboxImageId s of
        None \<Rightarrow> s
      | Some lid \<Rightarrow>
          if lid = [] then s
          else
            (let closure = images s;
                 currentIndex = findIndex (\<lambda>img. img_id img = lid) closure
             in if currentIndex = - 1 then s
                else
                  (let newIndex =
                         (if direction = Prev \<and> currentIndex > 0 then currentIndex - 1
                          else if direction = Next \<and> currentIndex < int (length closure) - 1
                          then currentIndex + 1
                          else currentIndex);
                       s1 = s\<lparr>lightboxImageId :=
                               (if newIndex = currentIndex then lightboxImageId s
                                else map_option img_id (imageAt closure newIndex)),
                             focusedIndex := newIndex,
                             store := syncSession now (gridMode s) (currentPage s)
                                        (Some newIndex) s\<rparr>
                   in preloadAdjacent closure newIndex (loadAt closure newIndex s1))))"

subsection \<open>Keyboard navigation\<close>

datatype Key = ArrowUp | ArrowDown | ArrowLeft | ArrowRight | Space | Enter | OtherKey

definition gridCols :: "GridMode \<Rightarrow> int" where
  "gridCols m = (if m = Grid5x5 then 5 else 6)"

definition gridRows :: "GridMode \<Rightarrow> int" where
  "gridRows m = (if m = Grid5x5 then 5 else 4)"

text \<open>
  The arrow-key branches of the \<^verbatim>\<open>switch\<close>: the new value of \<^verbatim>\<open>newIndex\<close> and the page
  given to \<^verbatim>\<open>setCurrentPage\<close>, if it is called. JavaScript's \<^verbatim>\<open>%\<close> takes the sign of the
  dividend (\<open>smod\<close>); \<^verbatim>\<open>Math.floor\<close> of a quotient is \<open>div\<close>.
\<close>

definition arrowTarget :: "Key \<Rightarrow> AppState \<Rightarrow> int \<times> int option" where
  "arrowTarget k s =
     (let cols = gridCols (gridMode s);
          rows = gridRows (gridMode s);
          perPage = cols * rows;
          fi = focusedIndex s;
          len = imageCount s;
          indexInPage = fi smod perPage;
          row = indexInPage div cols;
          col = indexInPage smod cols
      in case k of
           ArrowUp \<Rightarrow>
             if row > 0 then (fi - cols, None)
             else if currentPage s > 0
             then (let newPage = currentPage s - 1;
                       newPageStartIdx = newPage * perPage;
                       lastRowStart = newPageStartIdx + (rows - 1) * cols
                   in (min (lastRowStart + col) (len - 1), Some newPage))
             else (fi, None)
         | ArrowDown \<Rightarrow>
             if row < rows - 1 \<and> fi + cols < len
             then (let potentialIndex = fi + cols
                   in if potentialIndex < min (startIdx s + perPage) len
                      then (potentialIndex, None) else (fi, None))
             else if currentPage s < totalPages s - 1
             then (let newPage = currentPage s + 1;
                       newPageStartIdx = newPage * perPage
                   in (min (newPageStartIdx + col) (len - 1), Some newPage))
             else (fi, None)
         | ArrowLeft \<Rightarrow>
             if col > 0 then (fi - 1, None)
             else if fi > 0
             then (fi - 1,
                   if fi - 1 < startIdx s \<and> currentPage s > 0
                   then Some (currentPage s - 1) else None)
             else (fi, None)
         | ArrowRight \<Rightarrow>
             if col < cols - 1 \<and> fi + 1 < len
             then (let potentialIndex = fi + 1
                   in if potentialIndex < min (startIdx s + perPage) len
                      then (potentialIndex, None) else (fi, None))
             else if fi + 1 < len
             then (fi + 1,
                   if fi + 1 \<ge> endIdx s \<and> currentPage s < totalPages s - 1
                   then Some (currentPage s + 1) else None)
             else (fi, None)
         | _ \<Rightarrow> (fi, None))"

text \<open>
  The tail of the handler (\<^verbatim>\<open>// Ensure new index is valid\<close>): the index is committed only
  when it lies in the array, and stored with the page of the render the handler belongs to.
\<close>

definition commitIndex :: "int \<Rightarrow> int \<Rightarrow> AppState \<Rightarrow> AppState \<Rightarrow> AppState" where
  "commitIndex now newIndex s0 s =
     (if newIndex \<ge> 0 \<and> newIndex < imageCount s0
      then s\<lparr>focusedIndex := newIndex,
             store := (if newIndex \<noteq> focusedIndex s0
                       then syncSession now (gridMode s0) (currentPage s0) (Some newIndex)
                              (s0\<lparr>store := store s\<rparr>)
                       else store s)\<rparr>
      else s)"

text \<open>
  \<^verbatim>\<open>handleKeyDown\<close>. The listener is not installed while the lightbox is open, and the handler
  returns at once on an empty array or an unhandled key.
\<close>

definition handleKeyDown :: "int \<Rightarrow> Key \<Rightarrow> AppState \<Rightarrow> AppState" where
  "handleKeyDown now k s =
     (if truthyStr (lightboxImageId s) then s
      else if length (images s) = 0 then s
      else case k of
             OtherKey \<Rightarrow> s
           | Space \<Rightarrow>
               commitIndex now (focusedIndex s) s
                 (case imageAt (images s) (focusedIndex s) of
                    None \<Rightarrow> s
                  | Some img \<Rightarrow> handleLongPress (img_id img) s)
           | Enter \<Rightarrow>
               commitIndex now (focusedIndex s) s
                 (case imageAt (images s) (focusedIndex s) of
                    None \<Rightarrow> s
                  | Some img \<Rightarrow> handleSelectImage (img_id img) s)
           | _ \<Rightarrow>
               (case arrowTarget k s of
                  (newIndex, newPage) \<Rightarrow>
                    commitIndex now newIndex s
                      (case newPage of None \<Rightarrow> s | Some p \<Rightarrow> s\<lparr>currentPage := p\<rparr>)))"

subsection \<open>Selecting a folder: new session or reconciliation\<close>

text \<open>\<^verbatim>\<open>new Map(entries)\<close>: a later entry with the same key replaces an earlier one.\<close>

definition newMap :: "('k \<times> 'v) list \<Rightarrow> 'k \<Rightarrow> 'v option" where
  "newMap entries = map_of (rev entries)"

text \<open>
  The merge of the scanned images with the saved rows. The map is built from the entries
  \<^verbatim>\<open>[img.filePath, {selected, thumbnailData}]\<close>; a scanned image gets
  \<^verbatim>\<open>savedData?.selected || false\<close> and \<^verbatim>\<open>savedData?.thumbnailData || undefined\<close>, every other
  field is copied from the scanned item.
\<close>

definition savedEntries :: "SavedImage list \<Rightarrow> (string \<times> bool \<times> string option) list" where
  "savedEntries savedImages =
     map (\<lambda>img. (v_filePath img, (v_selected img, v_thumbnailData img))) savedImages"

definition mergeImages :: "SavedImage list \<Rightarrow> ImageItem list \<Rightarrow> ImageItem list" where
  "mergeImages savedImages scannedImages =
     (let savedDataMap = newMap (savedEntries savedImages)
      in map (\<lambda>img.
                (case savedDataMap (path img) of
                   None \<Rightarrow> img\<lparr>selected := False, thumbnailUrl := None\<rparr>
                 | Some savedData \<Rightarrow>
                     img\<lparr>selected := fst savedData,
                         thumbnailUrl := orUndefined (snd savedData)\<rparr>))
           scannedImages)"

definition newImageOf :: "ImageItem \<Rightarrow> NewImage" where
  "newImageOf img =
     \<lparr>n_fileName = fileName img, n_filePath = path img, n_size = img_size img,
      n_lastModified = lastModified img, n_selected = selected img,
      n_thumbnailData = None\<rparr>"

text \<open>\<^verbatim>\<open>scannedImages.forEach(img => saveImage(...))\<close>: a throw ends the loop.\<close>

fun saveAll :: "int \<Rightarrow> ImageItem list \<Rightarrow> Store \<Rightarrow> (JsError + unit) \<times> Store" where
  "saveAll sid [] st = (Inr (), st)"
| "saveAll sid (img # rest) st =
     (case saveImage sid (newImageOf img) st of
        (Inl e, st') \<Rightarrow> (Inl e, st')
      | (Inr u, st') \<Rightarrow> saveAll sid rest st')"

text \<open>
  What the folder picker and the scan give: the picker throws (the user cancels), or a
  folder of some name is picked and its scan throws or yields the sorted image list.
\<close>

datatype FolderPick = PickerRejected JsError | Picked string "JsError + ImageItem list"

text \<open>The branch \<^verbatim>\<open>existingSession && dbInitialized\<close>: restore the session and reconcile.\<close>

definition restoreSession ::
  "int \<Rightarrow> SessionRow \<Rightarrow> ImageItem list \<Rightarrow> AppState \<Rightarrow> AppState" where
  "restoreSession now existingSession scannedImages s =
     (let sessionId = s_id existingSession;
          s1 = s\<lparr>currentSessionId := Some sessionId,
                 gridMode := grid_mode existingSession,
                 currentPage := current_page existingSession,
                 focusedIndex := focused_index existingSession\<rparr>
      in case fst (getSessionImages sessionId (store s1)) of
           Inl e \<Rightarrow> s1\<lparr>isLoading := False\<rparr>
         | Inr savedImages \<Rightarrow>
             s1\<lparr>images := mergeImages savedImages scannedImages,
                store := snd (updateSession now sessionId (grid_mode existingSession)
                                (current_page existingSession)
                                (Some (focused_index existingSession)) (store s1)),
                isLoading := False\<rparr>)"

text \<open>The other branch: show the scan as it is and, with a database, record a new session.\<close>

definition newSession :: "int \<Rightarrow> string \<Rightarrow> ImageItem list \<Rightarrow> AppState \<Rightarrow> AppState" where
  "newSession now folderName scannedImages s =
     (let s1 = s\<lparr>images := scannedImages, currentPage := 0\<rparr>
      in if dbInitialized s
         then (case createSession now folderName (gridMode s) (store s1) of
                 (Inl e, st) \<Rightarrow> s1\<lparr>isLoading := False\<rparr>
               | (Inr sessionId, st) \<Rightarrow>
                   (case saveAll sessionId scannedImages st of
                      (Inl e, st') \<Rightarrow>
                        s1\<lparr>currentSessionId := Some sessionId, store := st',
                           isLoading := False\<rparr>
                    | (Inr u, st') \<Rightarrow>
                        s1\<lparr>currentSessionId := Some sessionId,
                           store := snd (saveImagesToDatabase st'),
                           isLoading := False\<rparr>))
         else s1\<lparr>isLoading := False\<rparr>)"

definition handleSelectFolder :: "int \<Rightarrow> FolderPick \<Rightarrow> AppState \<Rightarrow> AppState" where
  "handleSelectFolder now pick s =
     (if \<not> isSupported s then s
      else case pick of
             PickerRejected e \<Rightarrow> s\<lparr>isLoading := False\<rparr>
           | Picked folderName scan \<Rightarrow>
               (let s1 = s\<lparr>folderHandle := Some folderName, isLoading := True,
                           showResumeNotification := False\<rparr>
                in case (if dbInitialized s
                         then fst (findSessionByFolderName folderName (store s))
                         else Inr None) of
                     Inl e \<Rightarrow> s1\<lparr>isLoading := False\<rparr>
                   | Inr existingSession \<Rightarrow>
                       (case scan of
                          Inl e \<Rightarrow> s1\<lparr>isLoading := False\<rparr>
                        | Inr scannedImages \<Rightarrow>
                            (case existingSession of
                               None \<Rightarrow> newSession now folderName scannedImages s1
                             | Some es \<Rightarrow>
                                 if dbInitialized s
                                 then restoreSession now es scannedImages s1
                                 else newSession now folderName scannedImages s1))))"

subsection \<open>Effects\<close>

text \<open>
  The effect \<^verbatim>\<open>// Cleanup fullResUrl for images not on current or adjacent pages\<close>: every
  image whose page is none of the three kept pages loses its full-resolution URL (the URL
  is revoked, which changes nothing in the component state).
\<close>

definition cleanupItem :: "int \<Rightarrow> int \<Rightarrow> nat \<times> ImageItem \<Rightarrow> ImageItem" where
  "cleanupItem page perPage ix =
     (let imagePage = int (fst ix) div perPage
      in if imagePage \<notin> {page - 1, page, page + 1} \<and> truthyStr (fullResUrl (snd ix))
         then (snd ix)\<lparr>fullResUrl := None\<rparr>
         else snd ix)"

definition cleanupFullRes :: "AppState \<Rightarrow> AppState" where
  "cleanupFullRes s =
     (if length (images s) = 0 then s
      else s\<lparr>images := map (cleanupItem (currentPage s) (imagesPerPage s))
                          (enumerate 0 (images s))\<rparr>)"

text \<open>The effect \<^verbatim>\<open>// Initialize focused index when first loading\<close>.\<close>

definition initFocus :: "AppState \<Rightarrow> AppState" where
  "initFocus s =
     (if length (images s) > 0 \<and> focusedIndex s = 0 \<and> \<not> truthyNum (currentSessionId s)
      then s\<lparr>focusedIndex := startIdx s\<rparr> else s)"

text \<open>
  After a handler has changed the state from \<open>old\<close> to \<open>new\<close>, React runs, in source order,
  the effects one of whose dependencies changed: \<^verbatim>\<open>[images.length]\<close> for the first,
  \<^verbatim>\<open>[currentPage, images.length, imagesPerPage]\<close> for the cleanup.
\<close>

definition runEffects :: "AppState \<Rightarrow> AppState \<Rightarrow> AppState" where
  "runEffects old new =
     (let s1 = (if length (images new) \<noteq> length (images old) then initFocus new else new)
      in if currentPage new \<noteq> currentPage old
            \<or> length (images new) \<noteq> length (images old)
            \<or> imagesPerPage new \<noteq> imagesPerPage old
         then cleanupFullRes s1 else s1)"

subsection \<open>User events\<close>

datatype Event =
    SelectFolder FolderPick
  | SelectImage string
  | ToggleGridMode
  | PreviousPage
  | NextPage
  | LongPress string
  | CloseLightbox
  | NavigateLightbox Direction
  | KeyDown Key

definition handle :: "int \<Rightarrow> Event \<Rightarrow> AppState \<Rightarrow> AppState" where
  "handle now ev s =
     (case ev of
        SelectFolder pick \<Rightarrow> handleSelectFolder now pick s
      | SelectImage i \<Rightarrow> handleSelectImage i s
      | ToggleGridMode \<Rightarrow> handleToggleGridMode now s
      | PreviousPage \<Rightarrow> handlePreviousPage now s
      | NextPage \<Rightarrow> handleNextPage now s
      | LongPress i \<Rightarrow> handleLongPress i s
      | CloseLightbox \<Rightarrow> handleCloseLightbox s
      | NavigateLightbox d \<Rightarrow> handleNavigateLightbox now d s
      | KeyDown k \<Rightarrow> handleKeyDown now k s)"

definition step :: "int \<Rightarrow> AppState \<Rightarrow> Event \<Rightarrow> AppState" where
  "step now s ev = runEffects s (handle now ev s)"

definition run :: "int \<Rightarrow> AppState \<Rightarrow> Event list \<Rightarrow> AppState" where
  "run now s evs = foldl (step now) s evs"

text \<open>The component after mounting, with the database initialised on a fresh browser.\<close>

definition freshStore :: Store where
  "freshStore = snd (initDatabase None \<lparr>db = None, idb = None, idbAvailable = True\<rparr>)"

definition initialState :: AppState where
  "initialState =
     \<lparr>images = [], currentPage = 0, gridMode = Grid5x5, folderHandle = None,
      isLoading = False, isSupported = True, currentSessionId = None,
      dbInitialized = True, lightboxImageId = None, focusedIndex = 0,
      showResumeNotification = False, store = freshStore\<rparr>"

text \<open>
  The item \<^verbatim>\<open>scanFolder\<close> builds for a readable file of the given name, of 1024 bytes, last
  modified at time 7: the id is the name, a dash and the modification time.
\<close>

definition scannedItem :: "string \<Rightarrow> ImageItem" where
  "scannedItem nm =
     \<lparr>img_id = nm @ ''-7'', fileHandle = Inr nm, fileName = nm, path = nm,
      img_size = 1024, thumbnailUrl = None, fullResUrl = None, lastModified = 7,
      selected = False\<rparr>"

text \<open>Seventy file names in sorted order, and the scan of a folder holding the first \<open>n\<close>.\<close>

definition fileNames :: "string list" where
  "fileNames =
    [''img100.jpg'', ''img101.jpg'', ''img102.jpg'', ''img103.jpg'', ''img104.jpg'',
     ''img105.jpg'', ''img106.jpg'', ''img107.jpg'', ''img108.jpg'', ''img109.jpg'',
     ''img110.jpg'', ''img111.jpg'', ''img112.jpg'', ''img113.jpg'', ''img114.jpg'',
     ''img115.jpg'', ''img116.jpg'', ''img117.jpg'', ''img118.jpg'', ''img119.jpg'',
     ''img120.jpg'', ''img121.jpg'', ''img122.jpg'', ''img123.jpg'', ''img124.jpg'',
     ''img125.jpg'', ''img126.jpg'', ''img127.jpg'', ''img128.jpg'', ''img129.jpg'',
     ''img130.jpg'', ''img131.jpg'', ''img132.jpg'', ''img133.jpg'', ''img134.jpg'',
     ''img135.jpg'', ''img136.jpg'', ''img137.jpg'', ''img138.jpg'', ''img139.jpg'',
     ''img140.jpg'', ''img141.jpg'', ''img142.jpg'', ''img143.jpg'', ''img144.jpg'',
     ''img145.jpg'', ''img146.jpg'', ''img147.jpg'', ''img148.jpg'', ''img149.jpg'',
     ''img150.jpg'', ''img151.jpg'', ''img152.jpg'', ''img153.jpg'', ''img154.jpg'',
     ''img155.jpg'', ''img156.jpg'', ''img157.jpg'', ''img158.jpg'', ''img159.jpg'',
     ''img160.jpg'', ''img161.jpg'', ''img162.jpg'', ''img163.jpg'', ''img164.jpg'',
     ''img165.jpg'', ''img166.jpg'', ''img167.jpg'', ''img168.jpg'', ''img169.jpg'']"

definition folderOf :: "nat \<Rightarrow> ImageItem list" where
  "folderOf n = map scannedItem (take n fileNames)"

text \<open>
  Four images of which three are selected; reading the second selected one fails.
\<close>

definition exportScenario :: "ImageItem list" where
  "exportScenario =
     [(scannedItem ''a.jpg'')\<lparr>selected := True\<rparr>,
      (scannedItem ''b.jpg'')\<lparr>selected := True, fileHandle := Inl (Error ''gone'')\<rparr>,
      scannedItem ''c.jpg'',
      (scannedItem ''d.jpg'')\<lparr>selected := True\<rparr>]"

text \<open>The module state before \<^verbatim>\<open>initDatabase\<close> has run.\<close>

definition uninitialized :: Store where
  "uninitialized = \<lparr>db = None, idb = None, idbAvailable = True\<rparr>"

text \<open>
  A session on a fresh browser that puts the cursor on the bottom-right cell of the first
  page: a folder of seventy images is selected (5x5 grid), then the down arrow is pressed
  four times and the right arrow four times.
\<close>

definition cornerTrace :: "Event list" where
  "cornerTrace =
     SelectFolder (Picked ''photos'' (Inr (folderOf 70)))
       # replicate 4 (KeyDown ArrowDown) @ replicate 4 (KeyDown ArrowRight)"

definition cornerState :: AppState where
  "cornerState = run 0 initialState cornerTrace"

text \<open>The cursor, the page, the grid mode and the number of images of a state.\<close>

definition navReport :: "AppState \<Rightarrow> int \<times> int \<times> GridMode \<times> nat" where
  "navReport s = (focusedIndex s, currentPage s, gridMode s, length (images s))"

text \<open>
  Seventy images in the 5x5 grid with the cursor on a cell of the first row of the first
  page, and on a cell of the last row of the last page.
\<close>

definition firstPageState :: AppState where
  "firstPageState = initialState\<lparr>images := folderOf 70, currentPage := 0, focusedIndex := 3\<rparr>"

definition lastPageState :: AppState where
  "lastPageState = initialState\<lparr>images := folderOf 70, currentPage := 2, focusedIndex := 66\<rparr>"

text \<open>
  A store that holds one session for the folder \<^verbatim>\<open>photos\<close> with two image rows, the
  component resumed on it, and a rescan of the folder in which \<^verbatim>\<open>b.jpg\<close> is gone and
  \<^verbatim>\<open>c.jpg\<close> is new.
\<close>

definition photosSession :: SessionRow where
  "photosSession =
     \<lparr>s_id = 1, folder_name = ''photos'', created_at = 10, last_accessed = 20,
      grid_mode = Grid6x4, current_page = 0, focused_index = 1\<rparr>"

definition resumeDatabase :: Database where
  "resumeDatabase =
     \<lparr>session_rows = [photosSession],
      image_rows =
        [\<lparr>i_id = 1, session_id = 1, file_name = ''a.jpg'', file_path = ''a.jpg'',
          size_col = 1024, last_modified = 7, selected_col = 1,
          thumbnail_data = Some ''data:image/jpeg;base64,AAAA''\<rparr>,
         \<lparr>i_id = 2, session_id = 1, file_name = ''b.jpg'', file_path = ''b.jpg'',
          size_col = 1024, last_modified = 7, selected_col = 1, thumbnail_data = None\<rparr>],
      session_seq = 1, image_seq = 2\<rparr>"

definition resumeState :: AppState where
  "resumeState =
     initialState\<lparr>store := \<lparr>db = Some resumeDatabase, idb = Some resumeDatabase,
                              idbAvailable = True\<rparr>\<rparr>"

definition rescan :: "ImageItem list" where
  "rescan = [scannedItem ''a.jpg'', scannedItem ''c.jpg'']"

text \<open>
  The indices of the images that hold a full-resolution URL, reported with the current page
  and the page size. The images of page \<open>p\<close> are those with \<open>index div pageSize = p\<close>.
\<close>

definition fullResIndices :: "AppState \<Rightarrow> nat list" where
  "fullResIndices s =
     map fst (filter (\<lambda>ix. truthyStr (fullResUrl (snd ix))) (enumerate 0 (images s)))"

definition fullResReport :: "AppState \<Rightarrow> int \<times> int \<times> nat list" where
  "fullResReport s = (currentPage s, imagesPerPage s, fullResIndices s)"

text \<open>
  A session on a fresh browser: a folder of seventy images is selected, the next-page button
  is clicked twice, and the space key is pressed.
\<close>

definition spaceTrace :: "Event list" where
  "spaceTrace =
     [SelectFolder (Picked ''photos'' (Inr (folderOf 70))), NextPage, NextPage, KeyDown Space]"

text \<open>
  The lightbox can walk on from index \<open>i\<close>: the image ids are distinct and not empty,
  every file can be read, and the lightbox shows the image at \<open>i\<close>.
\<close>

definition lightboxReady :: "AppState \<Rightarrow> nat \<Rightarrow> bool" where
  "lightboxReady s i =
     (distinct (map img_id (images s))
      \<and> list_all (\<lambda>x. x \<noteq> []) (map img_id (images s))
      \<and> list_all (\<lambda>h. \<not> isl h) (map fileHandle (images s))
      \<and> i < length (images s)
      \<and> lightboxImageId s = Some (img_id (images s ! i)))"

definition lightboxReport :: "AppState \<Rightarrow> nat \<Rightarrow> bool \<times> int \<times> GridMode \<times> nat" where
  "lightboxReport s i = (lightboxReady s i, currentPage s, gridMode s, length (images s))"

text \<open>
  The state \<open>s\<close> has the ids of the array \<open>c\<close> a handler was created with, and every
  full-resolution URL that \<open>c\<close> has.
\<close>

definition covers :: "ImageItem list \<Rightarrow> AppState \<Rightarrow> bool" where
  "covers c s =
     (map img_id (images s) = map img_id c
      \<and> (\<forall>j < length c.
            truthyStr (fullResUrl (c ! j)) \<longrightarrow> truthyStr (fullResUrl (images s ! j))))"

text \<open>
  A second session on a fresh browser: the same folder is selected, the lightbox is opened
  on the last image of the first page (index 24), and the next image is asked for 25 times.
\<close>

definition lightboxOpen :: "Event list" where
  "lightboxOpen =
     [SelectFolder (Picked ''photos'' (Inr (folderOf 70))), LongPress ''img124.jpg-7'']"

definition lightboxTrace :: "Event list" where
  "lightboxTrace = lightboxOpen @ replicate 25 (NavigateLightbox Next)"

section \<open>Selection toggling\<close>

lemma toggleItem_twice: "toggleItem i (toggleItem i img) = img"
  by (simp add: toggleItem_def)

text \<open>
  C10. Toggling the selection of an id twice gives back the image list, and one toggle keeps
  the length of the list, replaces every item with that id by the same item with only
  \<open>selected\<close> negated, and leaves every other item as it is.
\<close>

theorem toggle_selection_self_inverse:
  "images (handleSelectImage i (handleSelectImage i s)) = images s
   \<and> length (images (handleSelectImage i s)) = length (images s)
   \<and> (\<forall>k < length (images s).
        images (handleSelectImage i s) ! k =
          (if img_id (images s ! k) = i
           then (images s ! k)\<lparr>selected := \<not> selected (images s ! k)\<rparr>
           else images s ! k))"
  by (simp add: handleSelectImage_def toggleItem_twice o_def) (simp add: toggleItem_def)

text \<open>
  The theorem at a folder of three images, toggling the second: two toggles restore the
  list, one toggle selects the second image and leaves the first as it was.
\<close>

theorem toggle_selection_self_inverse_witness:
  "images (handleSelectImage ''img101.jpg-7'' (handleSelectImage ''img101.jpg-7''
       (initialState\<lparr>images := folderOf 3\<rparr>))) = folderOf 3
   \<and> selected (images (handleSelectImage ''img101.jpg-7''
                  (initialState\<lparr>images := folderOf 3\<rparr>)) ! 1)
   \<and> images (handleSelectImage ''img101.jpg-7'' (initialState\<lparr>images := folderOf 3\<rparr>)) ! 0
       = folderOf 3 ! 0"
proof -
  have l: "length (folderOf 3) = 3" by (simp add: folderOf_def fileNames_def)
  have i1: "img_id (folderOf 3 ! 1) = ''img101.jpg-7''" by code_simp
  have i0: "img_id (folderOf 3 ! 0) \<noteq> ''img101.jpg-7''" by code_simp
  have s1: "\<not> selected (folderOf 3 ! 1)" by code_simp
  show ?thesis
    using toggle_selection_self_inverse
            [of "''img101.jpg-7''" "initialState\<lparr>images := folderOf 3\<rparr>"] l i1 i0 s1
    by (auto simp del: One_nat_def)
qed

section \<open>Bulk export\<close>

lemma exportLoop_success:
  "acc_success (exportLoop dest cb n i xs acc) =
     acc_success acc + length (filter (\<lambda>x. copyImage dest x = None) xs)"
  by (induction xs arbitrary: i acc) (auto split: option.splits)

lemma exportLoop_failed:
  "acc_failed (exportLoop dest cb n i xs acc) =
     acc_failed acc + length (filter (\<lambda>x. copyImage dest x \<noteq> None) xs)"
  by (induction xs arbitrary: i acc) (auto split: option.splits)

lemma exportLoop_errors:
  "acc_errors (exportLoop dest cb n i xs acc) =
     acc_errors acc
       @ List.map_filter (\<lambda>x. map_option (copyErrorMsg x) (copyImage dest x)) xs"
  by (induction xs arbitrary: i acc) (auto split: option.splits)

lemma length_map_filter_failed:
  "length (List.map_filter (\<lambda>x. map_option (g x) (f x)) xs)
     = length (filter (\<lambda>x. f x \<noteq> None) xs)"
  by (simp add: List.map_filter_def)

text \<open>
  C8. When no image of the list is selected, the export settles with the error
  \<^verbatim>\<open>No images selected\<close> and no destination folder has been requested, whatever the
  picker would have answered.
\<close>

theorem export_zero_selection_fails_fast:
  "\<forall>img \<in> set imgs. \<not> selected img \<Longrightarrow>
   exportSelectedImages imgs cb picker =
     \<lparr>outcome = Inl (Error ''No images selected''), pickerRequests = 0, progressCalls = []\<rparr>"
  by (simp add: exportSelectedImages_def filter_empty_conv)

text \<open>The theorem at a folder of three unselected images and a picker that would succeed.\<close>

theorem export_zero_selection_fails_fast_witness:
  "list_all (\<lambda>img. \<not> selected img) (folderOf 3) \<and>
   outcome (exportSelectedImages (folderOf 3) True (Inr (\<lambda>nm f. None)))
     = Inl (Error ''No images selected'') \<and>
   pickerRequests (exportSelectedImages (folderOf 3) True (Inr (\<lambda>nm f. None))) = 0"
proof -
  have h: "\<forall>img \<in> set (folderOf 3). \<not> selected img"
    by (simp add: folderOf_def scannedItem_def fileNames_def)
  show ?thesis
    using h export_zero_selection_fails_fast [OF h, of True "Inr (\<lambda>nm f. None)"]
    by (simp add: list_all_iff)
qed

text \<open>
  C9. With at least one selected image and a destination, the export returns a result: every
  selected image is counted once, as a success when its copy throws nothing and as a failure
  otherwise, and \<open>errors\<close> holds, in order, one message for each failed image. So a failure
  stops nothing, \<open>success + failed\<close> is the number of selected images and \<open>errors\<close> has
  \<open>failed\<close> entries.
\<close>

theorem export_collects_item_failures:
  assumes "filter selected imgs \<noteq> []"
  shows "\<exists>res. outcome (exportSelectedImages imgs cb (Inr dest)) = Inr res
     \<and> success res + failed res = length (filter selected imgs)
     \<and> success res = length (filter (\<lambda>x. copyImage dest x = None) (filter selected imgs))
     \<and> failed res = length (filter (\<lambda>x. copyImage dest x \<noteq> None) (filter selected imgs))
     \<and> length (errors res) = failed res
     \<and> errors res = List.map_filter (\<lambda>x. map_option (copyErrorMsg x) (copyImage dest x))
                       (filter selected imgs)"
proof -
  let ?sel = "filter selected imgs"
  have "length (filter (\<lambda>x. copyImage dest x = None) ?sel)
        + length (filter (\<lambda>x. copyImage dest x \<noteq> None) ?sel) = length ?sel"
    using sum_length_filter_compl [of "\<lambda>x. copyImage dest x = None" ?sel] by simp
  with assms show ?thesis
    by (simp add: exportSelectedImages_def Let_def exportLoop_success exportLoop_failed
        exportLoop_errors length_map_filter_failed del: filter_filter)
qed

text \<open>
  The scenario of the specification: three selected images, one of which cannot be read,
  give two successes, one failure and one message.
\<close>

theorem export_collects_item_failures_witness:
  "filter selected exportScenario \<noteq> [] \<and>
   outcome (exportSelectedImages exportScenario True (Inr (\<lambda>nm f. None))) =
     Inr \<lparr>success = 2, failed = 1, errors = [''Failed to copy b.jpg: gone'']\<rparr>"
proof -
  have h: "filter selected exportScenario \<noteq> []"
    by (simp add: exportScenario_def scannedItem_def)
  have e: "List.map_filter (\<lambda>x. map_option (copyErrorMsg x) (copyImage (\<lambda>nm f. None) x))
             (filter selected exportScenario) = [''Failed to copy b.jpg: gone'']"
    by (simp add: exportScenario_def scannedItem_def copyImage_def
        copyErrorMsg_def errorMessage_def)
  have s: "length (filter (\<lambda>x. copyImage (\<lambda>nm f. None) x = None)
                     (filter selected exportScenario)) = 2"
    by (simp add: exportScenario_def scannedItem_def copyImage_def)
  have f: "length (filter (\<lambda>x. copyImage (\<lambda>nm f. None) x \<noteq> None)
                     (filter selected exportScenario)) = 1"
    by (simp add: exportScenario_def scannedItem_def copyImage_def)
  obtain res where
    "outcome (exportSelectedImages exportScenario True (Inr (\<lambda>nm f. None))) = Inr res"
    "success res = 2" "failed res = 1" "errors res = [''Failed to copy b.jpg: gone'']"
    using export_collects_item_failures [OF h, of True "\<lambda>nm f. None"] e s f by auto
  then show ?thesis using h by simp
qed

section \<open>The store before and after initialisation\<close>

text \<open>
  Against C7 as stated (every store operation raises before initialisation):
  \<^verbatim>\<open>saveImagesToDatabase\<close> called on the uninitialised store returns normally and changes
  nothing, because \<^verbatim>\<open>saveToIndexedDB\<close> starts with \<^verbatim>\<open>if (!db) return\<close>.
\<close>

theorem store_silent_when_uninitialized_counterexample:
  "db uninitialized = None \<and> saveImagesToDatabase uninitialized = (Inr (), uninitialized)"
  by (simp add: uninitialized_def saveImagesToDatabase_def saveToIndexedDB_def)

lemma getDatabase_None: "db st = None \<Longrightarrow> getDatabase st = Inl notInitialized"
  by (simp add: getDatabase_def)

lemma getDatabase_Some: "db st = Some d \<Longrightarrow> getDatabase st = Inr d"
  by (simp add: getDatabase_def)

lemma initDatabase_initializes: "db (snd (initDatabase None st)) \<noteq> None"
  by (simp add: initDatabase_def saveToIndexedDB_def Let_def split: option.splits)

text \<open>
  C7, amended. Before initialisation every operation that obtains the database through
  \<^verbatim>\<open>getDatabase\<close> fails with the error \<^verbatim>\<open>Database not initialized\<close> and leaves the store as it
  was, while \<^verbatim>\<open>saveImagesToDatabase\<close> and \<^verbatim>\<open>closeDatabase\<close> return silently, also without
  changing the store. Once the database is there none of these operations raises, and a
  successful \<^verbatim>\<open>initDatabase\<close> puts it there.
\<close>

theorem store_uninitialized_operations:
  "(db st = None \<longrightarrow>
      createSession now folderName mode st = (Inl notInitialized, st)
    \<and> updateSession now sid mode page fi st = (Inl notInitialized, st)
    \<and> getSession sid st = (Inl notInitialized, st)
    \<and> getAllSessions st = (Inl notInitialized, st)
    \<and> findSessionByFolderName folderName st = (Inl notInitialized, st)
    \<and> deleteSession sid st = (Inl notInitialized, st)
    \<and> saveImage sid newImage st = (Inl notInitialized, st)
    \<and> updateImageThumbnail sid filePath thumb st = (Inl notInitialized, st)
    \<and> updateImageSelection sid filePath sel st = (Inl notInitialized, st)
    \<and> getSessionImages sid st = (Inl notInitialized, st)
    \<and> getSelectedImages sid st = (Inl notInitialized, st)
    \<and> exportDatabase st = (Inl notInitialized, st)
    \<and> saveImagesToDatabase st = (Inr (), st)
    \<and> closeDatabase st = st)
   \<and> (db st \<noteq> None \<longrightarrow>
      \<not> isl (fst (createSession now folderName mode st))
    \<and> \<not> isl (fst (updateSession now sid mode page fi st))
    \<and> \<not> isl (fst (getSession sid st))
    \<and> \<not> isl (fst (getAllSessions st))
    \<and> \<not> isl (fst (findSessionByFolderName folderName st))
    \<and> \<not> isl (fst (deleteSession sid st))
    \<and> \<not> isl (fst (saveImage sid newImage st))
    \<and> \<not> isl (fst (updateImageThumbnail sid filePath thumb st))
    \<and> \<not> isl (fst (updateImageSelection sid filePath sel st))
    \<and> \<not> isl (fst (getSessionImages sid st))
    \<and> \<not> isl (fst (getSelectedImages sid st))
    \<and> \<not> isl (fst (exportDatabase st)))
   \<and> db (snd (initDatabase None st)) \<noteq> None"
proof (intro conjI impI)
  assume n: "db st = None"
  note g = getDatabase_None [OF n]
  show "createSession now folderName mode st = (Inl notInitialized, st)"
    by (simp add: createSession_def g)
  show "updateSession now sid mode page fi st = (Inl notInitialized, st)"
    by (simp add: updateSession_def g)
  show "getSession sid st = (Inl notInitialized, st)"
    by (simp add: getSession_def g)
  show "getAllSessions st = (Inl notInitialized, st)"
    by (simp add: getAllSessions_def g)
  show "findSessionByFolderName folderName st = (Inl notInitialized, st)"
    by (simp add: findSessionByFolderName_def g)
  show "deleteSession sid st = (Inl notInitialized, st)"
    by (simp add: deleteSession_def g)
  show "saveImage sid newImage st = (Inl notInitialized, st)"
    by (simp add: saveImage_def g)
  show "updateImageThumbnail sid filePath thumb st = (Inl notInitialized, st)"
    by (simp add: updateImageThumbnail_def g)
  show "updateImageSelection sid filePath sel st = (Inl notInitialized, st)"
    by (simp add: updateImageSelection_def g)
  show "getSessionImages sid st = (Inl notInitialized, st)"
    by (simp add: getSessionImages_def g)
  show "getSelectedImages sid st = (Inl notInitialized, st)"
    by (simp add: getSelectedImages_def g)
  show "exportDatabase st = (Inl notInitialized, st)"
    by (simp add: exportDatabase_def g)
  show "saveImagesToDatabase st = (Inr (), st)"
    by (simp add: saveImagesToDatabase_def saveToIndexedDB_def n)
  show "closeDatabase st = st"
    by (simp add: closeDatabase_def n)
next
  assume "db st \<noteq> None"
  then obtain d where "db st = Some d" by auto
  note g = getDatabase_Some [OF this]
  show "\<not> isl (fst (createSession now folderName mode st))"
    by (simp add: createSession_def g Let_def)
  show "\<not> isl (fst (updateSession now sid mode page fi st))"
    by (simp add: updateSession_def g Let_def)
  show "\<not> isl (fst (getSession sid st))"
    by (simp add: getSession_def g)
  show "\<not> isl (fst (getAllSessions st))"
    by (simp add: getAllSessions_def g)
  show "\<not> isl (fst (findSessionByFolderName folderName st))"
    by (simp add: findSessionByFolderName_def g)
  show "\<not> isl (fst (deleteSession sid st))"
    by (simp add: deleteSession_def g)
  show "\<not> isl (fst (saveImage sid newImage st))"
    by (simp add: saveImage_def g Let_def)
  show "\<not> isl (fst (updateImageThumbnail sid filePath thumb st))"
    by (simp add: updateImageThumbnail_def g)
  show "\<not> isl (fst (updateImageSelection sid filePath sel st))"
    by (simp add: updateImageSelection_def g Let_def)
  show "\<not> isl (fst (getSessionImages sid st))"
    by (simp add: getSessionImages_def g)
  show "\<not> isl (fst (getSelectedImages sid st))"
    by (simp add: getSelectedImages_def g)
  show "\<not> isl (fst (exportDatabase st))"
    by (simp add: exportDatabase_def g)
next
  show "db (snd (initDatabase None st)) \<noteq> None"
    by (rule initDatabase_initializes)
qed

text \<open>
  The theorem at the uninitialised store and at the store of a fresh browser after
  \<^verbatim>\<open>initDatabase\<close>.
\<close>

theorem store_uninitialized_operations_witness:
  "db uninitialized = None
   \<and> createSession 5 ''photos'' Grid5x5 uninitialized = (Inl notInitialized, uninitialized)
   \<and> getSessionImages 1 uninitialized = (Inl notInitialized, uninitialized)
   \<and> saveImagesToDatabase uninitialized = (Inr (), uninitialized)
   \<and> db freshStore \<noteq> None
   \<and> \<not> isl (fst (createSession 5 ''photos'' Grid5x5 freshStore))
   \<and> \<not> isl (fst (getSessionImages 1 freshStore))"
proof -
  have u: "db uninitialized = None" by (simp add: uninitialized_def)
  have f: "db freshStore \<noteq> None"
    unfolding freshStore_def by (rule initDatabase_initializes)
  show ?thesis
    using u f
      store_uninitialized_operations [where st = uninitialized and now = 5
        and folderName = "''photos''" and mode = Grid5x5 and sid = 1]
      store_uninitialized_operations [where st = freshStore and now = 5
        and folderName = "''photos''" and mode = Grid5x5 and sid = 1]
    by simp
qed

section \<open>Grid navigation\<close>

text \<open>\<open>ceilDiv\<close> is \<^verbatim>\<open>Math.ceil\<close> of the quotient.\<close>

lemma ceilDiv_ceiling: "ceilDiv n p = \<lceil>real_of_int n / real_of_int p\<rceil>"
  unfolding ceilDiv_def ceiling_def
  by (metis floor_divide_of_int_eq minus_divide_left of_int_minus)

lemma length_folderOf: "n \<le> 70 \<Longrightarrow> length (folderOf n) = n"
  by (simp add: folderOf_def fileNames_def)

lemma length_loadFullResImage [simp]:
  "length (images (loadFullResImage c i s)) = length (images s)"
  by (simp add: loadFullResImage_def split: option.splits sum.splits)

lemma length_loadAt [simp]: "length (images (loadAt c k s)) = length (images s)"
  by (simp add: loadAt_def split: option.splits)

lemma length_preloadAdjacent [simp]:
  "length (images (preloadAdjacent c k s)) = length (images s)"
  by (simp add: preloadAdjacent_def Let_def)

lemma length_handleLongPress [simp]:
  "length (images (handleLongPress i s)) = length (images s)"
  by (simp add: handleLongPress_def Let_def)

lemma length_handleSelectImage [simp]:
  "length (images (handleSelectImage i s)) = length (images s)"
  by (simp add: handleSelectImage_def)

lemma length_commitIndex [simp]:
  "length (images (commitIndex now n s0 s)) = length (images s)"
  by (simp add: commitIndex_def)

lemma length_handleKeyDown:
  "length (images (handleKeyDown now k s)) = length (images s)"
  by (cases k) (simp_all add: handleKeyDown_def split: option.splits prod.splits)

lemma focus_commitIndex:
  "0 \<le> focusedIndex s \<Longrightarrow> focusedIndex s < imageCount s0 \<Longrightarrow>
   0 \<le> focusedIndex (commitIndex now n s0 s)
   \<and> focusedIndex (commitIndex now n s0 s) < imageCount s0"
  by (simp add: commitIndex_def)

lemma focus_loadFullResImage [simp]:
  "focusedIndex (loadFullResImage c i s) = focusedIndex s"
  by (simp add: loadFullResImage_def split: option.splits sum.splits)

lemma focus_loadAt [simp]: "focusedIndex (loadAt c k s) = focusedIndex s"
  by (simp add: loadAt_def split: option.splits)

lemma focus_preloadAdjacent [simp]:
  "focusedIndex (preloadAdjacent c k s) = focusedIndex s"
  by (simp add: preloadAdjacent_def Let_def)

lemma focus_handleLongPress [simp]:
  "focusedIndex (handleLongPress i s) = focusedIndex s"
  by (simp add: handleLongPress_def Let_def)

lemma focus_handleSelectImage [simp]:
  "focusedIndex (handleSelectImage i s) = focusedIndex s"
  by (simp add: handleSelectImage_def)

lemma focus_handleKeyDown:
  assumes "0 \<le> focusedIndex s" "focusedIndex s < imageCount s"
  shows "0 \<le> focusedIndex (handleKeyDown now k s)
       \<and> focusedIndex (handleKeyDown now k s) < imageCount s"
  using assms
  by (cases k)
    (auto simp: handleKeyDown_def intro!: focus_commitIndex split: option.splits prod.splits)

lemma runEffects_length [simp]:
  "length (images (runEffects old new)) = length (images new)"
  by (simp add: runEffects_def initFocus_def cleanupFullRes_def Let_def)

lemma runEffects_currentPage [simp]:
  "currentPage (runEffects old new) = currentPage new"
  by (simp add: runEffects_def initFocus_def cleanupFullRes_def Let_def)

lemma runEffects_gridMode [simp]:
  "gridMode (runEffects old new) = gridMode new"
  by (simp add: runEffects_def initFocus_def cleanupFullRes_def Let_def)

lemma runEffects_focus:
  "length (images new) = length (images old) \<Longrightarrow>
   focusedIndex (runEffects old new) = focusedIndex new"
  by (simp add: runEffects_def cleanupFullRes_def Let_def)

lemma runEffects_same: "runEffects s s = s"
  by (simp add: runEffects_def)

lemma cornerState_report: "navReport cornerState = (24, 0, Grid5x5, 70)"
  unfolding cornerState_def by code_simp

lemma cornerState_fields:
  "focusedIndex cornerState = 24" "currentPage cornerState = 0"
  "gridMode cornerState = Grid5x5" "length (images cornerState) = 70"
  using cornerState_report by (simp_all add: navReport_def)

text \<open>
  C2. From a cursor inside the image list, one key press (any key, so each of the four
  arrows), followed by the effects it triggers, keeps the number of images and leaves the
  cursor inside the list, on any page and in either grid mode.
\<close>

theorem navigation_keeps_focus_in_range:
  assumes "0 \<le> focusedIndex s" "focusedIndex s < imageCount s"
  shows "imageCount (step now s (KeyDown k)) = imageCount s
       \<and> 0 \<le> focusedIndex (step now s (KeyDown k))
       \<and> focusedIndex (step now s (KeyDown k)) < imageCount (step now s (KeyDown k))"
  using focus_handleKeyDown [OF assms, of now k]
  by (simp add: step_def handle_def imageCount_def runEffects_focus length_handleKeyDown)

text \<open>The theorem for the right arrow on the bottom-right cell of the first page.\<close>

theorem navigation_keeps_focus_in_range_witness:
  "0 \<le> focusedIndex cornerState \<and> focusedIndex cornerState < imageCount cornerState
   \<and> imageCount (step 0 cornerState (KeyDown ArrowRight)) = 70
   \<and> 0 \<le> focusedIndex (step 0 cornerState (KeyDown ArrowRight))
   \<and> focusedIndex (step 0 cornerState (KeyDown ArrowRight)) < 70"
proof -
  have h: "0 \<le> focusedIndex cornerState" "focusedIndex cornerState < imageCount cornerState"
    by (simp_all add: cornerState_fields imageCount_def)
  have c: "imageCount cornerState = 70" by (simp add: cornerState_fields imageCount_def)
  show ?thesis
    using h c navigation_keeps_focus_in_range [OF h, of 0 ArrowRight] by simp
qed

lemma commitIndex_same: "commitIndex now (focusedIndex s) s s = s"
  by (simp add: commitIndex_def)

lemma gridCols_pos: "0 < gridCols m"
  by (simp add: gridCols_def)

lemma arrowTarget_up_first_row:
  assumes "currentPage s = 0" "0 \<le> focusedIndex s" "focusedIndex s < gridCols (gridMode s)"
  shows "arrowTarget ArrowUp s = (focusedIndex s, None)"
proof -
  let ?c = "gridCols (gridMode s)" and ?r = "gridRows (gridMode s)"
  have pp: "?c \<le> ?c * ?r" "0 < ?c" by (auto simp: gridCols_def gridRows_def)
  have "focusedIndex s smod (?c * ?r) = focusedIndex s mod (?c * ?r)"
    using assms(2) pp by (intro smod_mod_positive) auto
  also have "\<dots> = focusedIndex s"
    by (rule mod_pos_pos_trivial) (use assms pp in linarith)+
  finally have m: "focusedIndex s smod (?c * ?r) = focusedIndex s" .
  have "focusedIndex s div ?c = 0" using assms by simp
  then show ?thesis
    using assms(1) by (simp add: arrowTarget_def Let_def m)
qed

lemma arrowTarget_down_last_row:
  assumes "currentPage s = totalPages s - 1"
    "focusedIndex s div gridCols (gridMode s) = (imageCount s - 1) div gridCols (gridMode s)"
  shows "arrowTarget ArrowDown s = (focusedIndex s, None)"
proof -
  let ?c = "gridCols (gridMode s)"
  have c: "0 < ?c" by (rule gridCols_pos)
  have "imageCount s - 1 < ?c * ((imageCount s - 1) div ?c) + ?c"
    using c by (metis mult.commute div_mult_mod_eq pos_mod_bound add_strict_left_mono)
  moreover have "?c * (focusedIndex s div ?c) \<le> focusedIndex s"
    using c by (metis mult.commute div_mult_mod_eq pos_mod_sign le_add_same_cancel1)
  ultimately have "\<not> focusedIndex s + ?c < imageCount s"
    using assms(2) by simp
  then show ?thesis
    using assms(1) by (simp add: arrowTarget_def Let_def)
qed

text \<open>
  C5. With the first page shown and the cursor in its first row, the up arrow changes
  nothing; with the last page shown and the cursor in the grid row that holds the last
  image, the down arrow changes nothing. The whole component state stays as it was, so in
  particular \<open>focusedIndex\<close> and \<open>currentPage\<close>, and nothing is written to the store.
\<close>

theorem up_down_noop_at_grid_edges:
  "(currentPage s = 0 \<and> 0 \<le> focusedIndex s \<and> focusedIndex s < gridCols (gridMode s)
      \<longrightarrow> step now s (KeyDown ArrowUp) = s)
   \<and> (currentPage s = totalPages s - 1
        \<and> focusedIndex s div gridCols (gridMode s)
            = (imageCount s - 1) div gridCols (gridMode s)
      \<longrightarrow> step now s (KeyDown ArrowDown) = s)"
  by (simp add: step_def handle_def handleKeyDown_def arrowTarget_up_first_row
      arrowTarget_down_last_row commitIndex_same runEffects_same)

text \<open>
  The theorem with seventy images in the 5x5 grid: up from index 3 on page 0, and down from
  index 66 on page 2, the last of three pages, whose last row holds the images 65 to 69.
\<close>

theorem up_down_noop_at_grid_edges_witness:
  "currentPage firstPageState = 0 \<and> focusedIndex firstPageState = 3
   \<and> step 0 firstPageState (KeyDown ArrowUp) = firstPageState
   \<and> currentPage lastPageState = 2 \<and> totalPages lastPageState = 3
   \<and> focusedIndex lastPageState = 66 \<and> imageCount lastPageState = 70
   \<and> step 0 lastPageState (KeyDown ArrowDown) = lastPageState"
proof -
  have f: "currentPage firstPageState = 0" "focusedIndex firstPageState = 3"
    "gridCols (gridMode firstPageState) = 5"
    by (simp_all add: firstPageState_def initialState_def gridCols_def)
  have l: "currentPage lastPageState = 2" "focusedIndex lastPageState = 66"
    "gridCols (gridMode lastPageState) = 5" "imageCount lastPageState = 70"
    "totalPages lastPageState = 3"
    by (simp_all add: lastPageState_def initialState_def gridCols_def imageCount_def
        totalPages_def ceilDiv_def imagesPerPage_def pageSize_def length_folderOf)
  show ?thesis
    using up_down_noop_at_grid_edges [of firstPageState 0]
      up_down_noop_at_grid_edges [of lastPageState 0] f l
    by simp
qed

section \<open>Toggling the grid mode\<close>

text \<open>
  Against C4 as stated (the toggle recomputes the cursor to be valid for the new page size):
  with seventy images in the 5x5 grid, page 0 and the cursor moved to index 24, the toggle
  gives the 6x4 grid and page 0, which shows the indices 0 to 23, and the cursor is still 24.
\<close>

theorem toggle_grid_mode_focus_off_page_counterexample:
  "focusedIndex cornerState = 24 \<and> currentPage cornerState = 0
   \<and> gridMode cornerState = Grid5x5 \<and> imageCount cornerState = 70
   \<and> gridMode (step 0 cornerState ToggleGridMode) = Grid6x4
   \<and> currentPage (step 0 cornerState ToggleGridMode) = 0
   \<and> focusedIndex (step 0 cornerState ToggleGridMode) = 24
   \<and> startIdx (step 0 cornerState ToggleGridMode) = 0
   \<and> endIdx (step 0 cornerState ToggleGridMode) = 24
   \<and> \<not> (startIdx (step 0 cornerState ToggleGridMode)
           \<le> focusedIndex (step 0 cornerState ToggleGridMode)
         \<and> focusedIndex (step 0 cornerState ToggleGridMode)
           < endIdx (step 0 cornerState ToggleGridMode))"
  by (simp add: cornerState_fields step_def handle_def handleToggleGridMode_def Let_def
      runEffects_focus imageCount_def endIdx_def startIdx_def imagesPerPage_def pageSize_def
      toggleMode_def)

text \<open>
  C4, amended. Toggling the grid mode (with the effects it triggers) switches to the other
  mode and resets \<open>currentPage\<close> to 0; it leaves \<open>focusedIndex\<close> and the number of images as
  they were, so a cursor inside the list stays inside the list, but it is not moved onto
  page 0.
\<close>

theorem toggle_grid_mode_keeps_focus:
  "currentPage (step now s ToggleGridMode) = 0
   \<and> gridMode (step now s ToggleGridMode) = toggleMode (gridMode s)
   \<and> focusedIndex (step now s ToggleGridMode) = focusedIndex s
   \<and> imageCount (step now s ToggleGridMode) = imageCount s"
  by (simp add: step_def handle_def handleToggleGridMode_def Let_def runEffects_focus
      imageCount_def)

text \<open>The theorem at the state of the counterexample.\<close>

theorem toggle_grid_mode_keeps_focus_witness:
  "currentPage (step 0 cornerState ToggleGridMode) = 0
   \<and> gridMode (step 0 cornerState ToggleGridMode) = Grid6x4
   \<and> focusedIndex (step 0 cornerState ToggleGridMode) = 24
   \<and> imageCount (step 0 cornerState ToggleGridMode) = 70"
  using toggle_grid_mode_keeps_focus [of 0 cornerState]
  by (simp add: cornerState_fields toggleMode_def imageCount_def)

section \<open>Reconciliation of a rescan with a stored session\<close>

lemma map_path_mergeImages: "map path (mergeImages sv sc) = map path sc"
  by (simp add: mergeImages_def Let_def split: option.splits)

lemma length_mergeImages: "length (mergeImages sv sc) = length sc"
  by (simp add: mergeImages_def Let_def)

lemma set_selectSessionImages:
  "set (selectSessionImages sid d) = {r \<in> set (image_rows d). session_id r = sid}"
  by (auto simp: selectSessionImages_def)

lemma distinct_map_sort_key:
  "distinct (map g (sort_key f xs)) = distinct (map g xs)"
  by (simp add: distinct_map)

lemma distinct_selectSessionImages:
  "distinct (map file_path (filter (\<lambda>r. session_id r = sid) (image_rows d))) \<Longrightarrow>
   distinct (map file_path (selectSessionImages sid d))"
  by (simp add: selectSessionImages_def distinct_map_sort_key)

lemma savedEntries_alt:
  "savedEntries (map savedOfRow rows)
     = map (\<lambda>r. (file_path r, (selected_col r = 1, thumbnail_data r))) rows"
  by (simp add: savedEntries_def savedOfRow_def)

lemma newMap_found:
  assumes "distinct (map file_path rows)" "r \<in> set rows"
  shows "newMap (savedEntries (map savedOfRow rows)) (file_path r)
           = Some (selected_col r = 1, thumbnail_data r)"
proof -
  let ?entries = "savedEntries (map savedOfRow rows)"
  have "distinct (map fst (rev ?entries))"
    using assms(1) by (simp add: savedEntries_alt rev_map[symmetric] o_def)
  moreover have "(file_path r, (selected_col r = 1, thumbnail_data r)) \<in> set (rev ?entries)"
    using assms(2) by (auto simp: savedEntries_alt)
  ultimately show ?thesis
    unfolding newMap_def by (rule map_of_is_SomeI)
qed

lemma newMap_absent:
  assumes "\<forall>r \<in> set rows. file_path r \<noteq> p"
  shows "newMap (savedEntries (map savedOfRow rows)) p = None"
  using assms by (auto simp: newMap_def map_of_eq_None_iff savedEntries_alt)

lemma mergeImages_nth:
  assumes "k < length sc"
  shows "mergeImages (map savedOfRow rows) sc ! k =
     (case newMap (savedEntries (map savedOfRow rows)) (path (sc ! k)) of
        None \<Rightarrow> (sc ! k)\<lparr>selected := False, thumbnailUrl := None\<rparr>
      | Some savedData \<Rightarrow>
          (sc ! k)\<lparr>selected := fst savedData,
                    thumbnailUrl := orUndefined (snd savedData)\<rparr>)"
  using assms by (simp add: mergeImages_def Let_def)

text \<open>What \<^verbatim>\<open>handleSelectFolder\<close> does on the reconciliation path.\<close>

lemma handleSelectFolder_restore:
  assumes "isSupported s" "dbInitialized s" "db (store s) = Some d"
    and "fst (findSessionByFolderName folderName (store s)) = Inr (Some es)"
  shows "images (handleSelectFolder now (Picked folderName (Inr scanned)) s)
           = mergeImages (map savedOfRow (selectSessionImages (s_id es) d)) scanned"
    and "store (handleSelectFolder now (Picked folderName (Inr scanned)) s)
           = saveToIndexedDB ((store s)\<lparr>db := Some (d\<lparr>session_rows :=
               map (updateSessionRow now (s_id es) (grid_mode es) (current_page es)
                      (Some (focused_index es)))
                 (session_rows d)\<rparr>)\<rparr>)"
  using assms
  by (simp_all add: handleSelectFolder_def restoreSession_def Let_def getSessionImages_def
      getDatabase_def updateSession_def)

text \<open>
  C1. Let a folder be selected for which a session exists, the rows of that session having
  distinct paths, and let the scan succeed. Then the image list has one item per scanned
  image, in scan order. An item whose path is the path of a row of the session is the
  scanned item with \<open>selected\<close> set to that row's flag and the thumbnail set to that row's
  thumbnail data (none when the column is null or the empty string); an item whose path
  is the path of no row of the session is the scanned item with \<open>selected = false\<close> and no
  thumbnail.
\<close>

theorem reconciliation_merges_by_path:
  assumes "isSupported s" "dbInitialized s" "db (store s) = Some d"
    and "fst (findSessionByFolderName folderName (store s)) = Inr (Some es)"
    and "distinct (map file_path (filter (\<lambda>r. session_id r = s_id es) (image_rows d)))"
    and "s' = handleSelectFolder now (Picked folderName (Inr scanned)) s"
  shows "length (images s') = length scanned
    \<and> (\<forall>k < length scanned.
         (\<forall>r \<in> set (image_rows d).
            session_id r = s_id es \<and> file_path r = path (scanned ! k) \<longrightarrow>
              images s' ! k = (scanned ! k)\<lparr>selected := (selected_col r = 1),
                                           thumbnailUrl := orUndefined (thumbnail_data r)\<rparr>)
       \<and> ((\<forall>r \<in> set (image_rows d).
              session_id r = s_id es \<longrightarrow> file_path r \<noteq> path (scanned ! k)) \<longrightarrow>
              images s' ! k = (scanned ! k)\<lparr>selected := False, thumbnailUrl := None\<rparr>))"
proof -
  let ?rows = "selectSessionImages (s_id es) d"
  have im: "images s' = mergeImages (map savedOfRow ?rows) scanned"
    using handleSelectFolder_restore(1) [OF assms(1-4)] assms(6) by simp
  have dist: "distinct (map file_path ?rows)"
    using assms(5) by (rule distinct_selectSessionImages)
  show ?thesis
  proof (intro conjI allI impI ballI)
    show "length (images s') = length scanned" by (simp add: im length_mergeImages)
  next
    fix k r
    assume k: "k < length scanned" and r: "r \<in> set (image_rows d)"
      and m: "session_id r = s_id es \<and> file_path r = path (scanned ! k)"
    then have "r \<in> set ?rows" by (simp add: set_selectSessionImages)
    from newMap_found [OF dist this] m
    show "images s' ! k = (scanned ! k)\<lparr>selected := (selected_col r = 1),
                                           thumbnailUrl := orUndefined (thumbnail_data r)\<rparr>"
      by (simp add: im mergeImages_nth [OF k])
  next
    fix k
    assume k: "k < length scanned"
      and a: "\<forall>r \<in> set (image_rows d).
                session_id r = s_id es \<longrightarrow> file_path r \<noteq> path (scanned ! k)"
    then have "\<forall>r \<in> set ?rows. file_path r \<noteq> path (scanned ! k)"
      by (simp add: set_selectSessionImages)
    from newMap_absent [OF this]
    show "images s' ! k = (scanned ! k)\<lparr>selected := False, thumbnailUrl := None\<rparr>"
      by (simp add: im mergeImages_nth [OF k])
  qed
qed

text \<open>
  C6. When a folder is selected for which a session exists and the scan succeeds, the image
  list holds exactly the scanned paths, so a row whose path is not in the scan has no item
  in the list; and the image rows of the database after the step are the image rows before
  it: none is deleted (and none added or changed). The snapshot the step writes to
  IndexedDB holds the same image rows.
\<close>

theorem reconciliation_keeps_item_rows:
  assumes "isSupported s" "dbInitialized s" "db (store s) = Some d"
    and "fst (findSessionByFolderName folderName (store s)) = Inr (Some es)"
    and "s' = handleSelectFolder now (Picked folderName (Inr scanned)) s"
  shows "map path (images s') = map path scanned
    \<and> (\<forall>r \<in> set (image_rows d).
          file_path r \<notin> set (map path scanned)
            \<longrightarrow> file_path r \<notin> set (map path (images s')))
    \<and> map_option image_rows (db (store s')) = Some (image_rows d)
    \<and> (idbAvailable (store s)
          \<longrightarrow> map_option image_rows (idb (store s')) = Some (image_rows d))"
  using handleSelectFolder_restore [OF assms(1-4), of now scanned] assms(5)
  by (simp add: map_path_mergeImages saveToIndexedDB_def)


lemma resume_find:
  "fst (findSessionByFolderName ''photos'' (store resumeState)) = Inr (Some photosSession)"
  by (simp add: resumeState_def initialState_def findSessionByFolderName_def getDatabase_def
      resumeDatabase_def photosSession_def byLastAccessedDesc_def firstRow_def)

lemma resume_facts:
  "isSupported resumeState" "dbInitialized resumeState"
  "db (store resumeState) = Some resumeDatabase"
  by (simp_all add: resumeState_def initialState_def)

text \<open>
  The theorem on the resumed store: \<^verbatim>\<open>a.jpg\<close> gets the saved flag and thumbnail, the new
  \<^verbatim>\<open>c.jpg\<close> starts unselected without a thumbnail.
\<close>

theorem reconciliation_merges_by_path_witness:
  "length (images (handleSelectFolder 30 (Picked ''photos'' (Inr rescan)) resumeState)) = 2
   \<and> images (handleSelectFolder 30 (Picked ''photos'' (Inr rescan)) resumeState) ! 0
       = (scannedItem ''a.jpg'')\<lparr>selected := True,
            thumbnailUrl := Some ''data:image/jpeg;base64,AAAA''\<rparr>
   \<and> images (handleSelectFolder 30 (Picked ''photos'' (Inr rescan)) resumeState) ! 1
       = (scannedItem ''c.jpg'')\<lparr>selected := False, thumbnailUrl := None\<rparr>"
proof -
  have d: "distinct (map file_path
             (filter (\<lambda>r. session_id r = s_id photosSession) (image_rows resumeDatabase)))"
    by (simp add: resumeDatabase_def photosSession_def)
  note t = reconciliation_merges_by_path [OF resume_facts resume_find d refl, of 30 rescan]
  have l: "length rescan = 2" by (simp add: rescan_def)
  have p: "rescan ! 0 = scannedItem ''a.jpg''" "rescan ! 1 = scannedItem ''c.jpg''"
    "\<And>nm. path (scannedItem nm) = nm"
    by (simp_all add: rescan_def scannedItem_def)
  note t0 = t [THEN conjunct2, THEN spec [where x = "0::nat"]]
  note t1 = t [THEN conjunct2, THEN spec [where x = "1::nat"]]
  let ?s' = "handleSelectFolder 30 (Picked ''photos'' (Inr rescan)) resumeState"
  from t l have "length (images ?s') = 2"
    by simp
  moreover from t0 l have "images ?s' ! 0
       = (scannedItem ''a.jpg'')\<lparr>selected := True,
            thumbnailUrl := Some ''data:image/jpeg;base64,AAAA''\<rparr>"
    by (simp add: p resumeDatabase_def photosSession_def orUndefined_def)
  moreover from t1 l have "images ?s' ! 1
       = (scannedItem ''c.jpg'')\<lparr>selected := False, thumbnailUrl := None\<rparr>"
    by (simp add: p resumeDatabase_def photosSession_def del: One_nat_def)
  ultimately show ?thesis by simp
qed

text \<open>
  The theorem on the resumed store: the row of \<^verbatim>\<open>b.jpg\<close> is not in the list and is still in
  the database.
\<close>

theorem reconciliation_keeps_item_rows_witness:
  "map path (images (handleSelectFolder 30 (Picked ''photos'' (Inr rescan)) resumeState))
     = [''a.jpg'', ''c.jpg'']
   \<and> ''b.jpg'' \<in> set (map file_path (image_rows resumeDatabase))
   \<and> ''b.jpg'' \<notin> set (map path
        (images (handleSelectFolder 30 (Picked ''photos'' (Inr rescan)) resumeState)))
   \<and> map_option image_rows
        (db (store (handleSelectFolder 30 (Picked ''photos'' (Inr rescan)) resumeState)))
       = Some (image_rows resumeDatabase)
   \<and> map_option image_rows
        (idb (store (handleSelectFolder 30 (Picked ''photos'' (Inr rescan)) resumeState)))
       = Some (image_rows resumeDatabase)"
proof -
  note t = reconciliation_keeps_item_rows [OF resume_facts resume_find refl, of 30 rescan]
  have p: "map path rescan = [''a.jpg'', ''c.jpg'']"
    by (simp add: rescan_def scannedItem_def)
  have b: "''b.jpg'' \<in> set (map file_path (image_rows resumeDatabase))"
    by (simp add: resumeDatabase_def)
  have a: "idbAvailable (store resumeState)"
    by (simp add: resumeState_def)
  from t p b a show ?thesis by simp
qed

section \<open>The full-resolution cache\<close>

text \<open>
  The cleanup effect does what its comment says: after it, an image that still has a
  full-resolution URL lies on the current page or a page next to it. It runs after every
  handler that changes the current page.
\<close>

lemma cleanup_releases_outside_window:
  assumes "k < length (images s)"
    and "truthyStr (fullResUrl (images (cleanupFullRes s) ! k))"
  shows "int k div imagesPerPage s \<in> {currentPage s - 1, currentPage s, currentPage s + 1}"
proof (rule ccontr)
  assume out: "int k div imagesPerPage s \<notin> {currentPage s - 1, currentPage s, currentPage s + 1}"
  have ne: "length (images s) \<noteq> 0" using assms(1) by auto
  have "images (cleanupFullRes s) ! k
        = cleanupItem (currentPage s) (imagesPerPage s) (k, images s ! k)"
    using assms(1) ne by (simp add: cleanupFullRes_def nth_enumerate_eq)
  with out have "\<not> truthyStr (fullResUrl (images (cleanupFullRes s) ! k))"
    by (simp add: cleanupItem_def Let_def truthyStr_def)
  with assms(2) show False by simp
qed

lemma page_change_releases_outside_window:
  assumes "currentPage (handle now ev s) \<noteq> currentPage s"
    and "k < length (images (step now s ev))"
    and "truthyStr (fullResUrl (images (step now s ev) ! k))"
  shows "int k div imagesPerPage (step now s ev)
           \<in> {currentPage (step now s ev) - 1, currentPage (step now s ev),
              currentPage (step now s ev) + 1}"
proof -
  let ?new = "handle now ev s"
  let ?s1 = "if length (images ?new) \<noteq> length (images s) then initFocus ?new else ?new"
  have st: "step now s ev = cleanupFullRes ?s1"
    using assms(1) by (simp add: step_def runEffects_def Let_def)
  have same: "currentPage ?s1 = currentPage ?new" "imagesPerPage ?s1 = imagesPerPage ?new"
    "images ?s1 = images ?new"
    by (simp_all add: initFocus_def imagesPerPage_def)
  have cp: "currentPage (cleanupFullRes ?s1) = currentPage ?s1"
    "imagesPerPage (cleanupFullRes ?s1) = imagesPerPage ?s1"
    "length (images (cleanupFullRes ?s1)) = length (images ?s1)"
    by (simp_all add: cleanupFullRes_def imagesPerPage_def)
  have "k < length (images ?s1)" using assms(2) st cp by simp
  from cleanup_releases_outside_window [OF this] assms(3) st
  show ?thesis by (simp add: cp)
qed

subsection \<open>Walking the lightbox\<close>

lemma findIndexFrom_first:
  "k < length xs \<Longrightarrow> P (xs ! k) \<Longrightarrow> (\<forall>j<k. \<not> P (xs ! j)) \<Longrightarrow>
   findIndexFrom P xs n = n + int k"
proof (induction xs arbitrary: k n)
  case Nil
  then show ?case by simp
next
  case (Cons x xs)
  show ?case
  proof (cases k)
    case 0
    with Cons.prems show ?thesis by simp
  next
    case (Suc m)
    with Cons.prems have "\<not> P x" by auto
    moreover have "findIndexFrom P xs (n + 1) = n + 1 + int m"
      using Cons.prems Suc by (intro Cons.IH) auto
    ultimately show ?thesis using Suc by simp
  qed
qed

lemma find_first:
  "k < length xs \<Longrightarrow> P (xs ! k) \<Longrightarrow> (\<forall>j<k. \<not> P (xs ! j)) \<Longrightarrow>
   List.find P xs = Some (xs ! k)"
proof (induction xs arbitrary: k)
  case Nil
  then show ?case by simp
next
  case (Cons x xs)
  show ?case
  proof (cases k)
    case 0
    with Cons.prems show ?thesis by simp
  next
    case (Suc m)
    with Cons.prems have "\<not> P x" by auto
    moreover have "List.find P xs = Some (xs ! m)"
      using Cons.prems Suc by (intro Cons.IH) auto
    ultimately show ?thesis using Suc by simp
  qed
qed

lemma distinct_ids_first:
  assumes "distinct (map img_id xs)" "k < length xs"
  shows "\<forall>j<k. img_id (xs ! j) \<noteq> img_id (xs ! k)"
proof (intro allI impI)
  fix j assume "j < k"
  then have "j < length xs" "j \<noteq> k" using assms(2) by auto
  then show "img_id (xs ! j) \<noteq> img_id (xs ! k)"
    using assms nth_eq_iff_index_eq [of "map img_id xs" j k] by simp
qed

lemma findIndex_id:
  assumes "distinct (map img_id xs)" "k < length xs"
  shows "findIndex (\<lambda>img. img_id img = img_id (xs ! k)) xs = int k"
  using findIndexFrom_first [of k xs "\<lambda>img. img_id img = img_id (xs ! k)" 0]
    distinct_ids_first [OF assms] assms(2)
  by (simp add: findIndex_def)

lemma find_id:
  assumes "distinct (map img_id xs)" "k < length xs"
  shows "List.find (\<lambda>img. img_id img = img_id (xs ! k)) xs = Some (xs ! k)"
  using find_first [of k xs "\<lambda>img. img_id img = img_id (xs ! k)"]
    distinct_ids_first [OF assms] assms(2)
  by simp

text \<open>What a load keeps.\<close>

lemma load_keeps:
  "map img_id (images (loadFullResImage c i s)) = map img_id (images s)"
  "map fileHandle (images (loadFullResImage c i s)) = map fileHandle (images s)"
  "currentPage (loadFullResImage c i s) = currentPage s"
  "gridMode (loadFullResImage c i s) = gridMode s"
  "lightboxImageId (loadFullResImage c i s) = lightboxImageId s"
  by (auto simp: loadFullResImage_def split: option.splits sum.splits)

lemma load_monotone:
  "j < length (images s) \<Longrightarrow> truthyStr (fullResUrl (images s ! j)) \<Longrightarrow>
   truthyStr (fullResUrl (images (loadFullResImage c i s) ! j))"
  by (auto simp: loadFullResImage_def truthyStr_def createObjectURL_def
      split: option.splits sum.splits)

lemma load_loads:
  assumes "distinct (map img_id c)" "k < length c" "\<not> isl (fileHandle (c ! k))"
    and "map img_id (images s) = map img_id c"
    and "truthyStr (fullResUrl (c ! k)) \<longrightarrow> truthyStr (fullResUrl (images s ! k))"
  shows "truthyStr (fullResUrl (images (loadFullResImage c (img_id (c ! k)) s) ! k))"
proof -
  have len: "length (images s) = length c" using assms(4) by (metis length_map)
  have idk: "img_id (images s ! k) = img_id (c ! k)"
    using assms(2,4) len by (metis nth_map)
  obtain f where f: "fileHandle (c ! k) = Inr f"
    using assms(3) by (cases "fileHandle (c ! k)") auto
  show ?thesis
    using assms(2,5) len idk f
    by (simp add: loadFullResImage_def find_id [OF assms(1,2)] truthyStr_def
        createObjectURL_def)
qed

lemma covers_length: "covers c s \<Longrightarrow> length (images s) = length c"
  unfolding covers_def by (metis length_map)

lemma covers_load: "covers c s \<Longrightarrow> covers c (loadFullResImage c' i s)"
  unfolding covers_def
  by (metis load_keeps(1) load_monotone length_map)

lemma covers_loadAt: "covers c s \<Longrightarrow> covers c (loadAt c' k s)"
  by (simp add: loadAt_def covers_load split: option.splits)

lemma loadAt_keeps:
  "map img_id (images (loadAt c k s)) = map img_id (images s)"
  "map fileHandle (images (loadAt c k s)) = map fileHandle (images s)"
  "currentPage (loadAt c k s) = currentPage s"
  "gridMode (loadAt c k s) = gridMode s"
  "lightboxImageId (loadAt c k s) = lightboxImageId s"
  by (simp_all add: loadAt_def load_keeps split: option.splits)

lemma loadAt_monotone:
  "j < length (images s) \<Longrightarrow> truthyStr (fullResUrl (images s ! j)) \<Longrightarrow>
   truthyStr (fullResUrl (images (loadAt c k s) ! j))"
  by (simp add: loadAt_def load_monotone split: option.splits)

lemma loadAt_loads:
  assumes "distinct (map img_id c)" "k < length c" "\<not> isl (fileHandle (c ! k))" "covers c s"
  shows "truthyStr (fullResUrl (images (loadAt c (int k) s) ! k))"
  using assms load_loads [of c k s]
  by (simp add: loadAt_def imageAt_def covers_def)

lemma preload_keeps:
  "map img_id (images (preloadAdjacent c k s)) = map img_id (images s)"
  "map fileHandle (images (preloadAdjacent c k s)) = map fileHandle (images s)"
  "currentPage (preloadAdjacent c k s) = currentPage s"
  "gridMode (preloadAdjacent c k s) = gridMode s"
  "lightboxImageId (preloadAdjacent c k s) = lightboxImageId s"
  by (simp_all add: preloadAdjacent_def Let_def loadAt_keeps)

lemma preload_monotone:
  "j < length (images s) \<Longrightarrow> truthyStr (fullResUrl (images s ! j)) \<Longrightarrow>
   truthyStr (fullResUrl (images (preloadAdjacent c k s) ! j))"
  by (simp add: preloadAdjacent_def Let_def loadAt_monotone)

lemma preload_loads_next:
  assumes "distinct (map img_id c)" "k + 1 < length c" "\<not> isl (fileHandle (c ! (k + 1)))"
    "covers c s"
  shows "truthyStr (fullResUrl (images (preloadAdjacent c (int k) s) ! (k + 1)))"
proof -
  let ?s1 = "if int k > 0 then loadAt c (int k - 1) s else s"
  have c1: "covers c ?s1" using assms(4) by (simp add: covers_loadAt)
  have "preloadAdjacent c (int k) s = loadAt c (int (k + 1)) ?s1"
    using assms(2) by (simp add: preloadAdjacent_def Let_def add.commute)
  with loadAt_loads [OF assms(1,2,3) c1] show ?thesis by simp
qed

lemma covers_refl: "images s = c \<Longrightarrow> covers c s"
  by (simp add: covers_def)

lemma runEffects_unchanged:
  "currentPage new = currentPage old \<Longrightarrow> gridMode new = gridMode old \<Longrightarrow>
   length (images new) = length (images old) \<Longrightarrow> runEffects old new = new"
  by (simp add: runEffects_def imagesPerPage_def Let_def)

lemma navigate_next_unfold:
  assumes "lightboxReady s i" "i + 1 < length (images s)"
  shows "handleNavigateLightbox now Next s =
     preloadAdjacent (images s) (int (i + 1))
       (loadAt (images s) (int (i + 1))
          (s\<lparr>lightboxImageId := Some (img_id (images s ! (i + 1))),
             focusedIndex := int (i + 1),
             store := syncSession now (gridMode s) (currentPage s) (Some (int (i + 1))) s\<rparr>))"
proof -
  have d: "distinct (map img_id (images s))" and i: "i < length (images s)"
    and l: "lightboxImageId s = Some (img_id (images s ! i))"
    and ne: "list_all (\<lambda>x. x \<noteq> []) (map img_id (images s))"
    using assms(1) by (simp_all add: lightboxReady_def)
  have "img_id (images s ! i) \<noteq> []"
    using ne i by (simp add: list_all_length)
  then show ?thesis
    using assms(2) l findIndex_id [OF d i]
    by (simp add: handleNavigateLightbox_def Let_def imageAt_def add.commute
        Suc_nat_eq_nat_zadd1 [symmetric])
qed

lemma lightbox_next:
  assumes "lightboxReady s i" "i + 1 < length (images s)"
  shows "lightboxReady (step now s (NavigateLightbox Next)) (i + 1)"
    and "currentPage (step now s (NavigateLightbox Next)) = currentPage s"
    and "gridMode (step now s (NavigateLightbox Next)) = gridMode s"
    and "length (images (step now s (NavigateLightbox Next))) = length (images s)"
    and "i + 2 < length (images s) \<Longrightarrow>
         truthyStr (fullResUrl (images (step now s (NavigateLightbox Next)) ! (i + 2)))"
proof -
  let ?c = "images s"
  let ?s1 = "s\<lparr>lightboxImageId := Some (img_id (?c ! (i + 1))),
             focusedIndex := int (i + 1),
             store := syncSession now (gridMode s) (currentPage s) (Some (int (i + 1))) s\<rparr>"
  let ?s2 = "loadAt ?c (int (i + 1)) ?s1"
  let ?h = "preloadAdjacent ?c (int (i + 1)) ?s2"
  have h: "handleNavigateLightbox now Next s = ?h"
    by (rule navigate_next_unfold [OF assms])
  have d: "distinct (map img_id ?c)"
    and ne: "list_all (\<lambda>x. x \<noteq> []) (map img_id ?c)"
    and rd: "list_all (\<lambda>h. \<not> isl h) (map fileHandle ?c)"
    using assms(1) by (simp_all add: lightboxReady_def)
  have ids: "map img_id (images ?h) = map img_id ?c"
    and fhs: "map fileHandle (images ?h) = map fileHandle ?c"
    and cp: "currentPage ?h = currentPage s" and gm: "gridMode ?h = gridMode s"
    and lb: "lightboxImageId ?h = Some (img_id (?c ! (i + 1)))"
    by (simp_all add: preload_keeps loadAt_keeps)
  have len: "length (images ?h) = length ?c" by simp
  have "runEffects s ?h = ?h"
    by (rule runEffects_unchanged [OF cp gm len])
  then have st: "step now s (NavigateLightbox Next) = ?h"
    by (simp only: step_def handle_def Event.case h)
  have "img_id (images ?h ! (i + 1)) = img_id (?c ! (i + 1))"
    using ids assms(2) len by (metis nth_map)
  with d ne rd assms(2) lb ids fhs len
  show "lightboxReady (step now s (NavigateLightbox Next)) (i + 1)"
    unfolding st by (simp add: lightboxReady_def)
  show "currentPage (step now s (NavigateLightbox Next)) = currentPage s"
    unfolding st by (rule cp)
  show "gridMode (step now s (NavigateLightbox Next)) = gridMode s"
    unfolding st by (rule gm)
  show "length (images (step now s (NavigateLightbox Next))) = length (images s)"
    unfolding st by (rule len)
  show "truthyStr (fullResUrl (images (step now s (NavigateLightbox Next)) ! (i + 2)))"
    if "i + 2 < length (images s)"
  proof -
    have c2: "covers ?c ?s2" by (intro covers_loadAt covers_refl) simp
    have "\<not> isl (fileHandle (?c ! (i + 1 + 1)))"
      using rd that by (simp add: list_all_length)
    from preload_loads_next [OF d _ this c2] that
    show ?thesis unfolding st by (simp add: numeral_2_eq_2)
  qed
qed

lemma lightbox_walk:
  assumes "lightboxReady s i" "i + n < length (images s)"
  shows "lightboxReady (run now s (replicate n (NavigateLightbox Next))) (i + n)
    \<and> currentPage (run now s (replicate n (NavigateLightbox Next))) = currentPage s
    \<and> gridMode (run now s (replicate n (NavigateLightbox Next))) = gridMode s
    \<and> length (images (run now s (replicate n (NavigateLightbox Next)))) = length (images s)"
  using assms
proof (induction n arbitrary: s i)
  case 0
  then show ?case by (simp add: run_def)
next
  case (Suc n)
  let ?s' = "step now s (NavigateLightbox Next)"
  have i1: "i + 1 < length (images s)" using Suc.prems(2) by simp
  note nx = lightbox_next [OF Suc.prems(1) i1, of now]
  have "i + 1 + n < length (images ?s')" using Suc.prems(2) nx(4) by simp
  from Suc.IH [OF nx(1) this] nx(2,3,4)
  show ?case by (simp add: run_def)
qed

text \<open>
  From a state in which the lightbox can walk on from \<open>i\<close>, asking \<open>n + 1\<close> times for the next
  image leaves the page and the grid mode as they are and loads the image \<open>i + n + 2\<close>,
  wherever that image lies.
\<close>

lemma lightbox_walk_loads_ahead:
  assumes "lightboxReady s i" "i + n + 2 < length (images s)"
  shows "currentPage (run now s (replicate (n + 1) (NavigateLightbox Next))) = currentPage s
    \<and> gridMode (run now s (replicate (n + 1) (NavigateLightbox Next))) = gridMode s
    \<and> truthyStr (fullResUrl
         (images (run now s (replicate (n + 1) (NavigateLightbox Next))) ! (i + n + 2)))"
proof -
  let ?m = "run now s (replicate n (NavigateLightbox Next))"
  have w: "lightboxReady ?m (i + n)" "currentPage ?m = currentPage s"
    "gridMode ?m = gridMode s" "length (images ?m) = length (images s)"
    using lightbox_walk [OF assms(1), of n now] assms(2) by simp_all
  have "replicate (n + 1) (NavigateLightbox Next)
          = replicate n (NavigateLightbox Next) @ [NavigateLightbox Next]"
    by (simp add: replicate_append_same)
  then have r: "run now s (replicate (n + 1) (NavigateLightbox Next))
           = step now ?m (NavigateLightbox Next)"
    by (simp only: run_def foldl_append foldl.simps)
  have a: "i + n + 1 < length (images ?m)" "i + n + 2 < length (images ?m)"
    using assms(2) w(4) by simp_all
  from lightbox_next(2,3) [OF w(1) a(1), of now] lightbox_next(5) [OF w(1) a(1) a(2), of now] w
  show ?thesis unfolding r by simp
qed

lemma lightboxOpen_report:
  "lightboxReport (run 0 initialState lightboxOpen) 24 = (True, 0, Grid5x5, 70)"
  by code_simp

lemma lightbox_trace_outside_window:
  "currentPage (run 0 initialState lightboxTrace) = 0
   \<and> gridMode (run 0 initialState lightboxTrace) = Grid5x5
   \<and> truthyStr (fullResUrl (images (run 0 initialState lightboxTrace) ! 50))"
proof -
  let ?s = "run 0 initialState lightboxOpen"
  have r: "lightboxReady ?s 24" "currentPage ?s = 0" "gridMode ?s = Grid5x5"
    "length (images ?s) = 70"
    using lightboxOpen_report by (simp_all add: lightboxReport_def)
  have t: "run 0 initialState lightboxTrace = run 0 ?s (replicate (24 + 1) (NavigateLightbox Next))"
    by (simp add: lightboxTrace_def run_def)
  have "24 + 24 + 2 < length (images ?s)" using r(4) by simp
  from lightbox_walk_loads_ahead [OF r(1) this, of 0] r(2,3)
  show ?thesis unfolding t by simp
qed

text \<open>
  C3 fails on the code, on both sessions. After the first the grid shows page 2 of the 5x5
  layout, so the pages kept are 1, 2 and 3, that is the indices from 25 on; yet the images
  0 and 1, both on page 0, hold full-resolution URLs: the page buttons leave
  \<open>focusedIndex\<close> at 0, and the space key opens that image and preloads its neighbour.
  After the second the grid still shows page 0, so the pages kept end with index 49; yet
  image 50 holds a full-resolution URL, preloaded by the lightbox. In both no dependency of
  the cleanup effect changes after the load, so nothing releases the URLs.
\<close>

theorem full_res_kept_outside_window:
  "fullResReport (run 0 initialState spaceTrace) = (2, 25, [0, 1])
   \<and> currentPage (run 0 initialState lightboxTrace) = 0
   \<and> gridMode (run 0 initialState lightboxTrace) = Grid5x5
   \<and> truthyStr (fullResUrl (images (run 0 initialState lightboxTrace) ! 50))"
proof -
  have "fullResReport (run 0 initialState spaceTrace) = (2, 25, [0, 1])"
    by code_simp
  with lightbox_trace_outside_window show ?thesis by simp
qed

end
